theory Spec2Isabelle
  imports Main "HOL-Library.Word"
begin

section \<open>The deferred disposal bridge of haskell-gi: base/c/hsgclosure.c\<close>

text \<open>
  The C file is glue between the Haskell runtime and GLib's object system. Everything it
  does is a sequence of calls into GLib, libc, pthreads and the GHC runtime, guarded by a
  cached debug flag. The model is sequential (one thread): it keeps the file's one static
  variable, the part of the outside world whose answers steer the control flow (the
  environment, the object store with type, reference count and floating flag, the heap
  cells of \<open>BoxedFreeInfo\<close>, the idle queue of the main loop) and a trace that records
  every external call in program order with its arguments. Reading through a pointer that
  is not live is a fault.
\<close>

subsection \<open>Data\<close>

type_synonym ptr = nat

abbreviation NULL :: ptr where "NULL \<equiv> 0"

type_synonym GType = nat

text \<open>What the file reads of a \<open>GObject\<close>: the type of its class, \<open>guint ref_count\<close>
  and the floating flag that \<open>g_object_ref_sink\<close> clears.\<close>

record GObject =
  g_type :: GType
  ref_count :: "32 word"
  floating :: bool

text \<open>\<open>typedef struct { GType gtype; gpointer boxed; } BoxedFreeInfo;\<close>\<close>

record BoxedFreeInfo =
  info_gtype :: GType
  info_boxed :: ptr

datatype GValue = GValue GType nat

text \<open>The two functions of this file that are handed to \<open>g_idle_add\<close>.\<close>

datatype GSourceFunc = Fn_g_object_unref_in_main_loop | Fn_main_loop_boxed_free_helper

text \<open>Arguments of the printf-style log calls: \<open>%p\<close>, \<open>%s\<close> (the name may be a null
  pointer) and \<open>%d\<close>.\<close>

datatype arg = ArgP ptr | ArgS "string option" | ArgD int

datatype event =
    Getenv string
  | Pthread_mutex_lock
  | Pthread_mutex_unlock
  | Fwrite string int
  | Vfprintf string "arg list"
  | Fprintf string
  | G_critical string
  | G_object_new_with_properties GType nat "string list" "GValue list" ptr
  | G_object_ref_sink ptr
  | G_object_unref ptr
  | G_boxed_free GType ptr
  | G_malloc ptr
  | G_free ptr
  | G_idle_add GSourceFunc ptr
  | FreeHaskellFunctionPtr ptr

datatype fault = Segfault

text \<open>
  The world: \<open>static_print_debug_info\<close> is the file's \<open>static int
  __print_debug_info\<close>, which starts at \<open>-1\<close>; \<open>environ\<close> is the process
  environment; \<open>type_is_a\<close>, \<open>type_name\<close> and \<open>initially_unowned\<close> are the
  native type system (\<open>g_type_check_instance_is_a\<close>, \<open>g_type_name\<close>,
  \<open>G_TYPE_INITIALLY_UNOWNED\<close>); \<open>thread_self\<close> is the running thread;
  \<open>construct\<close> is what the native constructor builds for a type and its properties
  (nothing, when it fails); \<open>objects\<close> are the live objects and \<open>infos\<close> the live
  \<open>BoxedFreeInfo\<close> cells, by address; \<open>brk\<close> is the highest address handed out;
  \<open>idle_sources\<close> is the idle queue of the main loop, oldest first; \<open>trace\<close>
  is the external calls made so far, oldest first.
\<close>

record world =
  static_print_debug_info :: int
  environ :: "string \<rightharpoonup> string"
  type_is_a :: "GType \<Rightarrow> GType \<Rightarrow> bool"
  type_name :: "GType \<Rightarrow> string option"
  initially_unowned :: GType
  thread_self :: ptr
  construct :: "GType \<Rightarrow> nat \<Rightarrow> string list \<Rightarrow> GValue list \<Rightarrow> GObject option"
  objects :: "ptr \<rightharpoonup> GObject"
  infos :: "ptr \<rightharpoonup> BoxedFreeInfo"
  brk :: ptr
  idle_sources :: "(GSourceFunc \<times> ptr) list"
  trace :: "event list"

text \<open>Programs that can fault: a state transformer into \<open>fault + result \<times> world\<close>.\<close>

type_synonym 'a prog = "world \<Rightarrow> fault + 'a \<times> world"

definition ret :: "'a \<Rightarrow> 'a prog" where
  "ret x s = Inr (x, s)"

definition bnd :: "'a prog \<Rightarrow> ('a \<Rightarrow> 'b prog) \<Rightarrow> 'b prog" where
  "bnd m f s = (case m s of Inl e \<Rightarrow> Inl e | Inr (x, s') \<Rightarrow> f x s')"

definition total :: "(world \<Rightarrow> 'a \<times> world) \<Rightarrow> 'a prog" where
  "total f s = Inr (f s)"

definition act :: "(world \<Rightarrow> world) \<Rightarrow> unit prog" where
  "act f s = Inr ((), f s)"

definition get :: "(world \<Rightarrow> 'a) \<Rightarrow> 'a prog" where
  "get f s = Inr (f s, s)"

definition emit :: "event \<Rightarrow> world \<Rightarrow> world" where
  "emit e s = s\<lparr>trace := trace s @ [e]\<rparr>"

definition nl :: char where "nl = CHR 0x0A"

definition tab :: char where "tab = CHR 0x09"

subsection \<open>The outside world: libc, pthreads, GLib, the GHC runtime\<close>

text \<open>
  None of the functions of this subsection is in the repository. Each call is recorded
  in the trace; where the answer or the effect of a call matters to the file, it is
  modelled after what the spec says of the native primitives (its sections on external
  interfaces and its glossary) and what the comments of the C file say.
\<close>

text \<open>Modelled from the spec: \<open>getenv\<close> of libc, the environment toggle. It answers
  from the environment; a variable that is set (to anything, the empty string included)
  gives a non-null pointer.\<close>

definition getenv :: "string \<Rightarrow> world \<Rightarrow> string option \<times> world" where
  "getenv name s = (environ s name, emit (Getenv name) s)"

text \<open>The writes to the standard error stream are recorded with the arguments the file
  passes: \<open>fwrite (msg, len, 1, stderr)\<close> with the buffer and the \<open>int\<close> length as
  given, the printf-style calls with the format and its arguments.\<close>

definition fwrite_stderr :: "string \<Rightarrow> int \<Rightarrow> world \<Rightarrow> world" where
  "fwrite_stderr msg len s = emit (Fwrite msg len) s"

definition vfprintf_stderr :: "string \<Rightarrow> arg list \<Rightarrow> world \<Rightarrow> world" where
  "vfprintf_stderr msg args s = emit (Vfprintf msg args) s"

definition fprintf_stderr :: "string \<Rightarrow> world \<Rightarrow> world" where
  "fprintf_stderr msg s = emit (Fprintf msg) s"

definition g_thread_self :: "world \<Rightarrow> ptr" where
  "g_thread_self s = thread_self s"

definition g_type_name :: "GType \<Rightarrow> world \<Rightarrow> string option" where
  "g_type_name t s = type_name s t"

text \<open>\<open>G_TYPE_FROM_INSTANCE (obj)\<close> and \<open>obj->ref_count\<close> read through the pointer.\<close>

definition G_TYPE_FROM_INSTANCE :: "ptr \<Rightarrow> GType prog" where
  "G_TYPE_FROM_INSTANCE obj s =
     (case objects s obj of None \<Rightarrow> Inl Segfault | Some ob \<Rightarrow> Inr (g_type ob, s))"

definition read_ref_count :: "ptr \<Rightarrow> (32 word) prog" where
  "read_ref_count obj s =
     (case objects s obj of None \<Rightarrow> Inl Segfault | Some ob \<Rightarrow> Inr (ref_count ob, s))"

text \<open>Modelled from the spec: GLib's macro \<open>G_TYPE_CHECK_INSTANCE_TYPE\<close>, the native
  type check. It is false on a null instance, true when the class of the instance has
  exactly the type, and otherwise what the native type system
  (\<open>g_type_check_instance_is_a\<close>) says about the two types.\<close>

definition G_TYPE_CHECK_INSTANCE_TYPE :: "ptr \<Rightarrow> GType \<Rightarrow> bool prog" where
  "G_TYPE_CHECK_INSTANCE_TYPE instance t s =
     (if instance = NULL then Inr (False, s)
      else case objects s instance of
             None \<Rightarrow> Inl Segfault
           | Some ob \<Rightarrow> Inr (g_type ob = t \<or> type_is_a s (g_type ob) t, s))"

definition G_IS_INITIALLY_UNOWNED :: "ptr \<Rightarrow> bool prog" where
  "G_IS_INITIALLY_UNOWNED obj s = G_TYPE_CHECK_INSTANCE_TYPE obj (initially_unowned s) s"

text \<open>Modelled from the spec: GLib's \<open>g_object_new_with_properties\<close>, the native
  constructor. What is built (type, initial count, floating or not) is the native
  system's business, the \<open>construct\<close> field; a failed construction returns the null
  pointer, a successful one a fresh address.\<close>

definition g_object_new_with_properties ::
    "GType \<Rightarrow> nat \<Rightarrow> string list \<Rightarrow> GValue list \<Rightarrow> world \<Rightarrow> ptr \<times> world" where
  "g_object_new_with_properties t n_props names vals s =
     (case construct s t n_props names vals of
        None \<Rightarrow> (NULL, emit (G_object_new_with_properties t n_props names vals NULL) s)
      | Some ob \<Rightarrow>
          (let p = Suc (brk s)
           in (p, emit (G_object_new_with_properties t n_props names vals p)
                    (s\<lparr>objects := (objects s)(p \<mapsto> ob), brk := p\<rparr>))))"

text \<open>Modelled from the spec: GLib's \<open>g_object_ref_sink\<close>, the floating-reference
  claim. As the comment in \<open>dbg_g_object_new\<close> has it: a floating reference is taken
  over (it becomes a counted one, the count stays), and an object that is not floating
  gets one more reference. GLib rejects a null pointer with a warning.\<close>

definition g_object_ref_sink :: "ptr \<Rightarrow> unit prog" where
  "g_object_ref_sink obj s =
     (if obj = NULL then Inr ((), emit (G_critical ''g_object_ref_sink'') s)
      else case objects s obj of
             None \<Rightarrow> Inl Segfault
           | Some ob \<Rightarrow>
               Inr ((), emit (G_object_ref_sink obj)
                 (s\<lparr>objects := (objects s)(obj \<mapsto>
                      (if floating ob then ob\<lparr>floating := False\<rparr>
                       else ob\<lparr>ref_count := ref_count ob + 1\<rparr>))\<rparr>)))"

text \<open>Modelled from the spec: GLib's \<open>g_object_unref\<close>, the reference decrement.
  Disposal decrements the count and frees at zero: the last reference finalizes the
  object, any other one is counted down. GLib rejects a null pointer and a count of zero
  with a warning.\<close>

definition g_object_unref :: "ptr \<Rightarrow> unit prog" where
  "g_object_unref obj s =
     (if obj = NULL then Inr ((), emit (G_critical ''g_object_unref'') s)
      else case objects s obj of
             None \<Rightarrow> Inl Segfault
           | Some ob \<Rightarrow>
               if ref_count ob = 0 then Inr ((), emit (G_critical ''g_object_unref'') s)
               else Inr ((), emit (G_object_unref obj)
                 (s\<lparr>objects := (if ref_count ob = 1 then (objects s)(obj := None)
                                 else (objects s)(obj \<mapsto> ob\<lparr>ref_count := ref_count ob - 1\<rparr>))\<rparr>)))"

text \<open>Modelled from the spec: GLib's \<open>g_boxed_free\<close>, the boxed-value free, is
  recorded with its type tag and handle; what it does to the value is the native
  system's business.\<close>

definition g_boxed_free :: "GType \<Rightarrow> ptr \<Rightarrow> world \<Rightarrow> world" where
  "g_boxed_free t b s = emit (G_boxed_free t b) s"

text \<open>Modelled from the spec: GLib's allocator. \<open>g_malloc\<close> never returns null for a
  non-zero size: it hands out a fresh cell, the one after \<open>brk\<close>, the highest address
  in use. \<open>g_free\<close> gives the cell of a task record back.\<close>

definition g_malloc :: "world \<Rightarrow> ptr \<times> world" where
  "g_malloc s = (let p = Suc (brk s) in (p, emit (G_malloc p) (s\<lparr>brk := p\<rparr>)))"

definition g_free :: "ptr \<Rightarrow> world \<Rightarrow> world" where
  "g_free p s = emit (G_free p) (s\<lparr>infos := (infos s)(p := None)\<rparr>)"

text \<open>Modelled from the spec: GLib's \<open>g_idle_add\<close>, the submission half of the
  idle-callback facility: the callback and its data join the idle queue of the main
  loop. The source id it returns is ignored by the file.\<close>

definition g_idle_add :: "GSourceFunc \<Rightarrow> ptr \<Rightarrow> world \<Rightarrow> world" where
  "g_idle_add f d s = emit (G_idle_add f d) (s\<lparr>idle_sources := idle_sources s @ [(f, d)]\<rparr>)"

text \<open>Modelled from the spec: \<open>freeHaskellFunctionPtr\<close> of the GHC runtime, the
  release primitive for callback trampolines, is recorded with its argument.\<close>

definition freeHaskellFunctionPtr :: "ptr \<Rightarrow> world \<Rightarrow> world" where
  "freeHaskellFunctionPtr p s = emit (FreeHaskellFunctionPtr p) s"

subsection \<open>The debug flag and the log\<close>

definition print_debug_info :: "world \<Rightarrow> int \<times> world" where
  "print_debug_info s =
     (let s' = (if static_print_debug_info s = - 1
                then (let (v, s1) = getenv ''HASKELL_GI_DEBUG_MEM'' s
                      in s1\<lparr>static_print_debug_info := (if v \<noteq> None then 1 else 0)\<rparr>)
                else s)
      in (static_print_debug_info s', s'))"

definition lock_log :: "world \<Rightarrow> world" where
  "lock_log s = emit Pthread_mutex_lock s"

definition unlock_log :: "world \<Rightarrow> world" where
  "unlock_log s = emit Pthread_mutex_unlock s"

definition dbg_log_with_len :: "string \<Rightarrow> int \<Rightarrow> world \<Rightarrow> world" where
  "dbg_log_with_len msg len s =
     (let (d, s1) = print_debug_info s
      in if d \<noteq> 0 then unlock_log (fwrite_stderr msg len (lock_log s1)) else s1)"

definition dbg_log :: "string \<Rightarrow> arg list \<Rightarrow> world \<Rightarrow> world" where
  "dbg_log msg args s =
     (let (d, s1) = print_debug_info s
      in if d \<noteq> 0 then unlock_log (vfprintf_stderr msg args (lock_log s1)) else s1)"

subsection \<open>Type check\<close>

definition check_object_type :: "ptr \<Rightarrow> GType \<Rightarrow> int prog" where
  "check_object_type instance t =
     (if instance \<noteq> NULL then
        bnd (G_TYPE_CHECK_INSTANCE_TYPE instance t) (\<lambda>b.
        ret (if b then 1 else 0))
      else
        bnd (act (dbg_log (''Check failed: got a null pointer'' @ [nl]) [])) (\<lambda>_.
        ret 0))"

subsection \<open>Freeing boxed values in the main loop\<close>

definition deref_info :: "ptr \<Rightarrow> BoxedFreeInfo prog" where
  "deref_info p s = (case infos s p of None \<Rightarrow> Inl Segfault | Some i \<Rightarrow> Inr (i, s))"

definition main_loop_boxed_free_helper :: "ptr \<Rightarrow> bool prog" where
  "main_loop_boxed_free_helper info =
     bnd (total print_debug_info) (\<lambda>d1.
     bnd (if d1 \<noteq> 0 then
            bnd (get g_thread_self) (\<lambda>self.
            bnd (act lock_log) (\<lambda>_.
            bnd (deref_info info) (\<lambda>i.
            bnd (act (dbg_log
                   (''Freeing a boxed object at %p from idle callback [thread: %p]'' @ [nl])
                   [ArgP (info_boxed i), ArgP self])) (\<lambda>_.
            bnd (deref_info info) (\<lambda>i.
            bnd (get (g_type_name (info_gtype i))) (\<lambda>name.
            act (dbg_log (tab # ''It is of type %s'' @ [nl]) [ArgS name])))))))
          else ret ()) (\<lambda>_.
     bnd (deref_info info) (\<lambda>i.
     bnd (act (g_boxed_free (info_gtype i) (info_boxed i))) (\<lambda>_.
     bnd (total print_debug_info) (\<lambda>d2.
     bnd (if d2 \<noteq> 0 then
            bnd (deref_info info) (\<lambda>i.
            bnd (act (dbg_log (tab # ''done freeing %p.'' @ [nl]) [ArgP (info_boxed i)])) (\<lambda>_.
            act unlock_log))
          else ret ()) (\<lambda>_.
     bnd (act (g_free info)) (\<lambda>_.
     ret False)))))))"

text \<open>The two assignments \<open>info->gtype = gtype; info->boxed = boxed;\<close> fill the cell
  that \<open>g_malloc\<close> returned.\<close>

definition boxed_free_helper :: "GType \<Rightarrow> ptr \<Rightarrow> world \<Rightarrow> world" where
  "boxed_free_helper gtype boxed s =
     (let (info, s1) = g_malloc s;
          s2 = s1\<lparr>infos := (infos s1)(info \<mapsto> \<lparr>info_gtype = gtype, info_boxed = boxed\<rparr>)\<rparr>
      in g_idle_add Fn_main_loop_boxed_free_helper info s2)"

subsection \<open>Disowning and releasing objects\<close>

definition dbg_g_object_disown :: "ptr \<Rightarrow> unit prog" where
  "dbg_g_object_disown obj =
     bnd (total print_debug_info) (\<lambda>d.
     if d \<noteq> 0 then
       bnd (act lock_log) (\<lambda>_.
       bnd (get g_thread_self) (\<lambda>self.
       bnd (act (dbg_log (''Disowning a GObject at %p [thread: %p]'' @ [nl])
              [ArgP obj, ArgP self])) (\<lambda>_.
       bnd (G_TYPE_FROM_INSTANCE obj) (\<lambda>gtype.
       bnd (get (g_type_name gtype)) (\<lambda>name.
       bnd (act (dbg_log (tab # ''It is of type %s'' @ [nl]) [ArgS name])) (\<lambda>_.
       bnd (read_ref_count obj) (\<lambda>rc.
       bnd (act (dbg_log (tab # ''Its refcount before disowning is %d'' @ [nl])
              [ArgD (sint rc)])) (\<lambda>_.
       act unlock_log))))))))
     else ret ())"

definition print_object_dbg_info :: "ptr \<Rightarrow> unit prog" where
  "print_object_dbg_info obj =
     bnd (get g_thread_self) (\<lambda>self.
     bnd (act (dbg_log (''Unref of %p from idle callback [thread: %p]'' @ [nl])
            [ArgP obj, ArgP self])) (\<lambda>_.
     bnd (G_TYPE_FROM_INSTANCE obj) (\<lambda>gtype.
     bnd (get (g_type_name gtype)) (\<lambda>name.
     bnd (act (dbg_log (tab # ''It is of type %s'' @ [nl]) [ArgS name])) (\<lambda>_.
     bnd (read_ref_count obj) (\<lambda>rc.
     act (dbg_log (tab # ''Its refcount before unref is %d'' @ [nl]) [ArgD (sint rc)])))))))"

definition g_object_unref_in_main_loop :: "ptr \<Rightarrow> bool prog" where
  "g_object_unref_in_main_loop obj =
     bnd (total print_debug_info) (\<lambda>d1.
     bnd (if d1 \<noteq> 0 then
            bnd (act lock_log) (\<lambda>_.
            print_object_dbg_info obj)
          else ret ()) (\<lambda>_.
     bnd (g_object_unref obj) (\<lambda>_.
     bnd (total print_debug_info) (\<lambda>d2.
     bnd (if d2 \<noteq> 0 then
            bnd (act (fprintf_stderr (tab # ''Unref done'' @ [nl]))) (\<lambda>_.
            act unlock_log)
          else ret ()) (\<lambda>_.
     ret False)))))"

definition dbg_g_object_unref :: "ptr \<Rightarrow> world \<Rightarrow> world" where
  "dbg_g_object_unref obj s = g_idle_add Fn_g_object_unref_in_main_loop obj s"

subsection \<open>Construction\<close>

text \<open>The branch for GLib 2.54 and later; the older one builds the same parameters
  into an array and calls \<open>g_object_newv\<close>.\<close>

definition dbg_g_object_new :: "GType \<Rightarrow> nat \<Rightarrow> string list \<Rightarrow> GValue list \<Rightarrow> ptr prog" where
  "dbg_g_object_new gtype n_props names vals =
     bnd (total print_debug_info) (\<lambda>d1.
     bnd (if d1 \<noteq> 0 then
            bnd (get g_thread_self) (\<lambda>self.
            bnd (act lock_log) (\<lambda>_.
            bnd (get (g_type_name gtype)) (\<lambda>name.
            act (dbg_log (''Creating a new GObject of type %s [thread: %p]'' @ [nl])
              [ArgS name, ArgP self]))))
          else ret ()) (\<lambda>_.
     bnd (total (g_object_new_with_properties gtype n_props names vals)) (\<lambda>result.
     bnd (G_IS_INITIALLY_UNOWNED result) (\<lambda>iu.
     bnd (if iu then g_object_ref_sink result else ret ()) (\<lambda>_.
     bnd (total print_debug_info) (\<lambda>d2.
     bnd (if d2 \<noteq> 0 then
            bnd (act (dbg_log (tab # ''done, got a pointer at %p'' @ [nl]) [ArgP result])) (\<lambda>_.
            act unlock_log)
          else ret ()) (\<lambda>_.
     ret result)))))))"

subsection \<open>Releasing function pointers\<close>

definition safeFreeFunPtr :: "ptr \<Rightarrow> world \<Rightarrow> world" where
  "safeFreeFunPtr p s = (if p \<noteq> NULL then freeHaskellFunctionPtr p s else s)"

subsection \<open>The main loop's idle queue\<close>

text \<open>Modelled from the spec: the dispatching half of the idle-callback facility, GLib's
  main loop. It calls the function of the idle source at the head of the queue with the
  source's data; the source is removed when the function returns \<open>FALSE\<close> ("do not
  reschedule") and stays queued when it returns \<open>TRUE\<close>.\<close>

fun invoke :: "GSourceFunc \<Rightarrow> ptr \<Rightarrow> bool prog" where
  "invoke Fn_g_object_unref_in_main_loop d = g_object_unref_in_main_loop d"
| "invoke Fn_main_loop_boxed_free_helper d = main_loop_boxed_free_helper d"

definition main_loop_dispatch :: "unit prog" where
  "main_loop_dispatch s =
     (case idle_sources s of
        [] \<Rightarrow> Inr ((), s)
      | (f, d) # rest \<Rightarrow>
          (case invoke f d (s\<lparr>idle_sources := rest\<rparr>) of
             Inl e \<Rightarrow> Inl e
           | Inr (again, s') \<Rightarrow>
               Inr ((), if again then s'\<lparr>idle_sources := idle_sources s' @ [(f, d)]\<rparr> else s')))"

fun main_loop_iterations :: "nat \<Rightarrow> unit prog" where
  "main_loop_iterations 0 = ret ()"
| "main_loop_iterations (Suc n) = bnd main_loop_dispatch (\<lambda>_. main_loop_iterations n)"

subsection \<open>Calls into the file, one after the other\<close>

text \<open>A process uses the file through its entry points; the main loop runs the two
  callbacks; other code of the process may change the environment in between.\<close>

datatype call =
    Call_check_object_type ptr GType
  | Call_boxed_free_helper GType ptr
  | Call_main_loop_boxed_free_helper ptr
  | Call_dbg_g_object_disown ptr
  | Call_g_object_unref_in_main_loop ptr
  | Call_dbg_g_object_unref ptr
  | Call_dbg_g_object_new GType nat "string list" "GValue list"
  | Call_safeFreeFunPtr ptr
  | Call_dbg_log_with_len string int
  | Call_main_loop_dispatch
  | Call_setenv string "string option"

datatype retval = RVoid | RInt int | RPointer ptr | RBoolean bool

fun exec :: "call \<Rightarrow> retval prog" where
  "exec (Call_check_object_type p t) = bnd (check_object_type p t) (\<lambda>r. ret (RInt r))"
| "exec (Call_boxed_free_helper t b) = bnd (act (boxed_free_helper t b)) (\<lambda>_. ret RVoid)"
| "exec (Call_main_loop_boxed_free_helper p) =
     bnd (main_loop_boxed_free_helper p) (\<lambda>r. ret (RBoolean r))"
| "exec (Call_dbg_g_object_disown p) = bnd (dbg_g_object_disown p) (\<lambda>_. ret RVoid)"
| "exec (Call_g_object_unref_in_main_loop p) =
     bnd (g_object_unref_in_main_loop p) (\<lambda>r. ret (RBoolean r))"
| "exec (Call_dbg_g_object_unref p) = bnd (act (dbg_g_object_unref p)) (\<lambda>_. ret RVoid)"
| "exec (Call_dbg_g_object_new t n names vals) =
     bnd (dbg_g_object_new t n names vals) (\<lambda>r. ret (RPointer r))"
| "exec (Call_safeFreeFunPtr p) = bnd (act (safeFreeFunPtr p)) (\<lambda>_. ret RVoid)"
| "exec (Call_dbg_log_with_len msg len) = bnd (act (dbg_log_with_len msg len)) (\<lambda>_. ret RVoid)"
| "exec Call_main_loop_dispatch = bnd main_loop_dispatch (\<lambda>_. ret RVoid)"
| "exec (Call_setenv name v) =
     bnd (act (\<lambda>s. s\<lparr>environ := (environ s)(name := v)\<rparr>)) (\<lambda>_. ret RVoid)"

fun exec_all :: "call list \<Rightarrow> unit prog" where
  "exec_all [] = ret ()"
| "exec_all (c # cs) = bnd (exec c) (\<lambda>_. exec_all cs)"



subsection \<open>Reading the trace\<close>

text \<open>The diagnostic side of the trace: reading the toggle, the log mutex, and the writes
  to the standard error stream. Everything else is an effect on the native side.\<close>

fun is_write :: "event \<Rightarrow> bool" where
  "is_write (Fwrite _ _) = True"
| "is_write (Vfprintf _ _) = True"
| "is_write (Fprintf _) = True"
| "is_write _ = False"

fun is_getenv :: "event \<Rightarrow> bool" where
  "is_getenv (Getenv _) = True"
| "is_getenv _ = False"

fun is_debug :: "event \<Rightarrow> bool" where
  "is_debug (Getenv _) = True"
| "is_debug Pthread_mutex_lock = True"
| "is_debug Pthread_mutex_unlock = True"
| "is_debug e = is_write e"

definition effects :: "event list \<Rightarrow> event list" where
  "effects tr = filter (\<lambda>e. \<not> is_debug e) tr"

definition stderr_writes :: "event list \<Rightarrow> event list" where
  "stderr_writes tr = filter is_write tr"

text \<open>The log mutex along a stretch of trace, for the one thread of the model: a
  recursive mutex counts its locks, a write needs the mutex held, an unlock needs a lock
  before it. The result is the count at the end, or nothing if the discipline is broken.\<close>

fun lock_scan :: "nat \<Rightarrow> event list \<Rightarrow> nat option" where
  "lock_scan d [] = Some d"
| "lock_scan d (Pthread_mutex_lock # es) = lock_scan (Suc d) es"
| "lock_scan d (Pthread_mutex_unlock # es) =
     (case d of 0 \<Rightarrow> None | Suc d' \<Rightarrow> lock_scan d' es)"
| "lock_scan d (e # es) = (if is_write e \<and> d = 0 then None else lock_scan d es)"

definition disciplined :: "world \<Rightarrow> world \<Rightarrow> bool" where
  "disciplined s s' = (\<exists>evs. trace s' = trace s @ evs \<and> lock_scan 0 evs = Some 0)"

text \<open>The flag has been read: the static variable no longer holds \<open>-1\<close>.\<close>

definition settled :: "world \<Rightarrow> bool" where
  "settled s = (static_print_debug_info s \<noteq> - 1)"

definition settle :: "world \<Rightarrow> world" where
  "settle s = snd (print_debug_info s)"

text \<open>From one world to a later one, the static variable has kept its value, the
  environment has not been read, and if the value is 0 nothing has been written to the
  standard error stream.\<close>

definition flag_kept :: "world \<Rightarrow> world \<Rightarrow> bool" where
  "flag_kept s s' =
     (static_print_debug_info s' = static_print_debug_info s \<and>
      filter is_getenv (trace s') = filter is_getenv (trace s) \<and>
      (static_print_debug_info s = 0 \<longrightarrow>
         stderr_writes (trace s') = stderr_writes (trace s)))"

text \<open>The toggle is off: it was absent when it was read, or it has not been read yet
  and is absent.\<close>

definition toggle_off :: "world \<Rightarrow> bool" where
  "toggle_off s =
     (static_print_debug_info s = 0 \<or>
      (static_print_debug_info s = - 1 \<and> environ s ''HASKELL_GI_DEBUG_MEM'' = None))"

text \<open>Two worlds that differ at most in the diagnostic side: the static flag, the
  environment, the names used in log lines and the diagnostic events of the trace.\<close>

definition same_native :: "world \<Rightarrow> world \<Rightarrow> bool" where
  "same_native s1 s2 =
     (objects s1 = objects s2 \<and> infos s1 = infos s2 \<and> brk s1 = brk s2 \<and>
      idle_sources s1 = idle_sources s2 \<and> effects (trace s1) = effects (trace s2) \<and>
      type_is_a s1 = type_is_a s2 \<and> initially_unowned s1 = initially_unowned s2 \<and>
      construct s1 = construct s2)"

text \<open>A small world to run the file in: a process that has just started, with GObject
  (80), GInitiallyUnowned (1000) below it and a widget type (2000) below that.\<close>

definition example_world :: world where
  "example_world =
     \<lparr>static_print_debug_info = - 1,
      environ = Map.empty,
      type_is_a = (\<lambda>a b. a = b \<or> (a, b) \<in> {(2000, 1000), (2000, 80), (1000, 80)}),
      type_name = (\<lambda>t. if t = 80 then Some ''GObject''
                        else if t = 1000 then Some ''GInitiallyUnowned''
                        else if t = 2000 then Some ''Widget'' else None),
      initially_unowned = 1000,
      thread_self = 7,
      construct = (\<lambda>t n names vals.
         if t = 2000 then Some \<lparr>g_type = 2000, ref_count = 1, floating = True\<rparr>
         else if t = 80 then Some \<lparr>g_type = 80, ref_count = 1, floating = False\<rparr>
         else None),
      objects = Map.empty,
      infos = Map.empty,
      brk = 100,
      idle_sources = [],
      trace = []\<rparr>"

text \<open>The same world with a widget at address 5 (one counted reference, not floating),
  a plain object at address 6 with three references, and a \<open>BoxedFreeInfo\<close> cell at
  address 9.\<close>

definition example_heap :: world where
  "example_heap =
     example_world
       \<lparr>objects := [5 \<mapsto> \<lparr>g_type = 2000, ref_count = 1, floating = False\<rparr>,
                    6 \<mapsto> \<lparr>g_type = 80, ref_count = 3, floating = False\<rparr>],
        infos := [9 \<mapsto> \<lparr>info_gtype = 300, info_boxed = 40\<rparr>]\<rparr>"


section \<open>Properties\<close>

subsection \<open>Rules for running the model\<close>

lemma emit_simps [simp]:
  "static_print_debug_info (emit e s) = static_print_debug_info s"
  "environ (emit e s) = environ s"
  "type_is_a (emit e s) = type_is_a s"
  "type_name (emit e s) = type_name s"
  "initially_unowned (emit e s) = initially_unowned s"
  "thread_self (emit e s) = thread_self s"
  "construct (emit e s) = construct s"
  "objects (emit e s) = objects s"
  "infos (emit e s) = infos s"
  "brk (emit e s) = brk s"
  "idle_sources (emit e s) = idle_sources s"
  "trace (emit e s) = trace s @ [e]"
  by (simp_all add: emit_def)

lemma settled_simps [simp]:
  "settled (emit e s) = settled s"
  "settled (s\<lparr>objects := ob\<rparr>) = settled s"
  "settled (s\<lparr>infos := i\<rparr>) = settled s"
  "settled (s\<lparr>brk := b\<rparr>) = settled s"
  "settled (s\<lparr>idle_sources := q\<rparr>) = settled s"
  "settled (s\<lparr>environ := en\<rparr>) = settled s"
  "settled (s\<lparr>trace := tr\<rparr>) = settled s"
  by (simp_all add: settled_def)

lemma print_debug_info_settled:
  "settled s \<Longrightarrow> print_debug_info s = (static_print_debug_info s, s)"
  by (simp add: print_debug_info_def settled_def)

lemma print_debug_info_settle:
  "print_debug_info s = (static_print_debug_info (settle s), settle s)"
  by (simp add: settle_def print_debug_info_def Let_def)

lemma settle_settled [simp]: "settled (settle s)"
  by (simp add: settle_def print_debug_info_def settled_def getenv_def Let_def)

lemma settle_id: "settled s \<Longrightarrow> settle s = s"
  by (simp add: settle_def print_debug_info_settled)

lemma settle_idem [simp]: "settle (settle s) = settle s"
  by (simp add: settle_id)

lemma settle_simps [simp]:
  "environ (settle s) = environ s"
  "type_is_a (settle s) = type_is_a s"
  "type_name (settle s) = type_name s"
  "initially_unowned (settle s) = initially_unowned s"
  "thread_self (settle s) = thread_self s"
  "construct (settle s) = construct s"
  "objects (settle s) = objects s"
  "infos (settle s) = infos s"
  "brk (settle s) = brk s"
  "idle_sources (settle s) = idle_sources s"
  by (simp_all add: settle_def print_debug_info_def getenv_def Let_def)

lemma effects_simps [simp]:
  "effects [] = []"
  "effects (e # es) = (if is_debug e then effects es else e # effects es)"
  "effects (xs @ ys) = effects xs @ effects ys"
  by (simp_all add: effects_def)

lemma stderr_writes_simps [simp]:
  "stderr_writes [] = []"
  "stderr_writes (e # es) = (if is_write e then e # stderr_writes es else stderr_writes es)"
  "stderr_writes (xs @ ys) = stderr_writes xs @ stderr_writes ys"
  by (simp_all add: stderr_writes_def)

lemma trace_settle:
  "trace (settle s) =
     trace s @ (if static_print_debug_info s = - 1 then [Getenv ''HASKELL_GI_DEBUG_MEM''] else [])"
  by (simp add: settle_def print_debug_info_def getenv_def Let_def)

lemma effects_settle [simp]: "effects (trace (settle s)) = effects (trace s)"
  by (simp add: trace_settle)

lemma stderr_writes_settle [simp]: "stderr_writes (trace (settle s)) = stderr_writes (trace s)"
  by (simp add: trace_settle)

lemma toggle_off_settle: "toggle_off s \<Longrightarrow> static_print_debug_info (settle s) = 0"
  by (auto simp add: toggle_off_def settle_def print_debug_info_def getenv_def Let_def)

lemma bnd_print_debug_info:
  "bnd (total print_debug_info) f s = f (static_print_debug_info (settle s)) (settle s)"
  by (simp add: bnd_def total_def print_debug_info_settle)

lemma bnd_print_debug_info_settled:
  "settled s \<Longrightarrow> bnd (total print_debug_info) f s = f (static_print_debug_info s) s"
  by (simp add: bnd_print_debug_info settle_id)

lemma bnd_act [simp]: "bnd (act g) f s = f () (g s)"
  by (simp add: bnd_def act_def)

lemma bnd_get [simp]: "bnd (get g) f s = f (g s) s"
  by (simp add: bnd_def get_def)

lemma bnd_ret [simp]: "bnd (ret x) f s = f x s"
  by (simp add: bnd_def ret_def)

lemma bnd_assoc: "bnd (bnd m f) g = bnd m (\<lambda>x. bnd (f x) g)"
  by (rule ext) (simp add: bnd_def split: sum.splits prod.splits)

lemma bnd_G_TYPE_FROM_INSTANCE:
  "bnd (G_TYPE_FROM_INSTANCE obj) f s =
     (case objects s obj of None \<Rightarrow> Inl Segfault | Some ob \<Rightarrow> f (g_type ob) s)"
  by (simp add: bnd_def G_TYPE_FROM_INSTANCE_def split: option.splits)

lemma bnd_read_ref_count:
  "bnd (read_ref_count obj) f s =
     (case objects s obj of None \<Rightarrow> Inl Segfault | Some ob \<Rightarrow> f (ref_count ob) s)"
  by (simp add: bnd_def read_ref_count_def split: option.splits)

lemma bnd_deref_info:
  "bnd (deref_info p) f s = (case infos s p of None \<Rightarrow> Inl Segfault | Some i \<Rightarrow> f i s)"
  by (simp add: bnd_def deref_info_def split: option.splits)

lemma bnd_G_TYPE_CHECK_INSTANCE_TYPE:
  "bnd (G_TYPE_CHECK_INSTANCE_TYPE p t) f s =
     (if p = NULL then f False s
      else case objects s p of
             None \<Rightarrow> Inl Segfault
           | Some ob \<Rightarrow> f (g_type ob = t \<or> type_is_a s (g_type ob) t) s)"
  by (simp add: bnd_def G_TYPE_CHECK_INSTANCE_TYPE_def split: option.splits)

lemma bnd_g_object_unref:
  "bnd (g_object_unref obj) f s =
     (if obj = NULL then f () (emit (G_critical ''g_object_unref'') s)
      else case objects s obj of
             None \<Rightarrow> Inl Segfault
           | Some ob \<Rightarrow>
               if ref_count ob = 0 then f () (emit (G_critical ''g_object_unref'') s)
               else f () (emit (G_object_unref obj)
                 (s\<lparr>objects := (if ref_count ob = 1 then (objects s)(obj := None)
                                 else (objects s)(obj \<mapsto> ob\<lparr>ref_count := ref_count ob - 1\<rparr>))\<rparr>)))"
  by (simp add: bnd_def g_object_unref_def split: option.splits)

lemma bnd_g_object_ref_sink:
  "bnd (g_object_ref_sink obj) f s =
     (if obj = NULL then f () (emit (G_critical ''g_object_ref_sink'') s)
      else case objects s obj of
             None \<Rightarrow> Inl Segfault
           | Some ob \<Rightarrow>
               f () (emit (G_object_ref_sink obj)
                 (s\<lparr>objects := (objects s)(obj \<mapsto>
                      (if floating ob then ob\<lparr>floating := False\<rparr>
                       else ob\<lparr>ref_count := ref_count ob + 1\<rparr>))\<rparr>)))"
  by (simp add: bnd_def g_object_ref_sink_def split: option.splits)

lemma dbg_log_settled:
  "settled s \<Longrightarrow> dbg_log msg args s =
     (if static_print_debug_info s \<noteq> 0
      then emit Pthread_mutex_unlock (emit (Vfprintf msg args) (emit Pthread_mutex_lock s))
      else s)"
  by (simp add: dbg_log_def print_debug_info_settled lock_log_def unlock_log_def
      vfprintf_stderr_def)

lemma dbg_log_with_len_settled:
  "settled s \<Longrightarrow> dbg_log_with_len msg len s =
     (if static_print_debug_info s \<noteq> 0
      then emit Pthread_mutex_unlock (emit (Fwrite msg len) (emit Pthread_mutex_lock s))
      else s)"
  by (simp add: dbg_log_with_len_def print_debug_info_settled lock_log_def unlock_log_def
      fwrite_stderr_def)

lemma dbg_log_settle: "dbg_log msg args s = dbg_log msg args (settle s)"
  by (simp add: dbg_log_def print_debug_info_settle)

lemma dbg_log_with_len_settle: "dbg_log_with_len msg len s = dbg_log_with_len msg len (settle s)"
  by (simp add: dbg_log_with_len_def print_debug_info_settle)

lemmas run_simps =
  bnd_print_debug_info_settled bnd_assoc bnd_G_TYPE_FROM_INSTANCE bnd_read_ref_count
  bnd_deref_info bnd_G_TYPE_CHECK_INSTANCE_TYPE bnd_g_object_unref bnd_g_object_ref_sink
  dbg_log_settled lock_log_def unlock_log_def fprintf_stderr_def g_thread_self_def
  g_type_name_def g_boxed_free_def g_free_def ret_def act_def

lemma bnd_g_object_new_with_properties:
  "bnd (total (g_object_new_with_properties t n names vals)) f s =
     (case construct s t n names vals of
        None \<Rightarrow> f NULL (emit (G_object_new_with_properties t n names vals NULL) s)
      | Some ob \<Rightarrow>
          f (Suc (brk s)) (emit (G_object_new_with_properties t n names vals (Suc (brk s)))
             (s\<lparr>objects := (objects s)(Suc (brk s) \<mapsto> ob), brk := Suc (brk s)\<rparr>)))"
  by (simp add: bnd_def total_def g_object_new_with_properties_def Let_def split: option.splits)

lemma bnd_G_IS_INITIALLY_UNOWNED:
  "bnd (G_IS_INITIALLY_UNOWNED p) f s =
     bnd (G_TYPE_CHECK_INSTANCE_TYPE p (initially_unowned s)) f s"
  by (simp add: bnd_def G_IS_INITIALLY_UNOWNED_def)

lemmas new_simps = bnd_g_object_new_with_properties bnd_G_IS_INITIALLY_UNOWNED

text \<open>Every entry point that starts by reading the flag behaves as if the flag had been
  read just before.\<close>

lemma main_loop_boxed_free_helper_settle:
  "main_loop_boxed_free_helper p s = main_loop_boxed_free_helper p (settle s)"
  by (simp add: main_loop_boxed_free_helper_def bnd_print_debug_info)

lemma dbg_g_object_disown_settle: "dbg_g_object_disown p s = dbg_g_object_disown p (settle s)"
  by (simp add: dbg_g_object_disown_def bnd_print_debug_info)

lemma g_object_unref_in_main_loop_settle:
  "g_object_unref_in_main_loop p s = g_object_unref_in_main_loop p (settle s)"
  by (simp add: g_object_unref_in_main_loop_def bnd_print_debug_info)

lemma dbg_g_object_new_settle:
  "dbg_g_object_new t n names vals s = dbg_g_object_new t n names vals (settle s)"
  by (simp add: dbg_g_object_new_def bnd_print_debug_info)

subsection \<open>Releasing function pointers\<close>

lemma safeFreeFunPtr_null_pow: "(safeFreeFunPtr NULL ^^ n) s = s"
  by (induction n) (simp_all add: safeFreeFunPtr_def)

text \<open>
  C5: \<open>safeFreeFunPtr\<close> is total. With the null pointer it changes nothing, however
  often it is called; with any other pointer it calls \<open>freeHaskellFunctionPtr\<close> on
  that pointer, once, and does nothing else.
\<close>

theorem safeFreeFunPtr_total:
  "(safeFreeFunPtr NULL ^^ n) s = s \<and>
   (p \<noteq> NULL \<longrightarrow> safeFreeFunPtr p s = s\<lparr>trace := trace s @ [FreeHaskellFunctionPtr p]\<rparr>)"
  by (simp add: safeFreeFunPtr_null_pow)
     (simp add: safeFreeFunPtr_def freeHaskellFunctionPtr_def emit_def)

theorem safeFreeFunPtr_total_witness:
  "(safeFreeFunPtr NULL ^^ 3) example_world = example_world \<and>
   (5 \<noteq> NULL \<and> trace (safeFreeFunPtr 5 example_world) = [FreeHaskellFunctionPtr 5])"
  using safeFreeFunPtr_total [of 3 example_world 5]
  by (simp add: example_world_def)

subsection \<open>Type check\<close>

text \<open>
  C4: \<open>check_object_type\<close> returns and never faults on a null handle or a handle to a
  live object. For the null handle the answer is 0 (false), and nothing but diagnostics
  happens; for a handle to an object the answer is 1 exactly when the object's type is
  the expected one or a subtype of it in the native type system, and 0 otherwise, and
  the world is left as it was.
\<close>

theorem check_object_type_total:
  "(\<exists>s'. check_object_type NULL t s = Inr (0, s') \<and> same_native s' s) \<and>
   (instance \<noteq> NULL \<longrightarrow> objects s instance = Some ob \<longrightarrow>
      check_object_type instance t s =
        Inr (if g_type ob = t \<or> type_is_a s (g_type ob) t then 1 else 0, s))"
proof -
  have "check_object_type NULL t s =
          Inr (0, dbg_log (''Check failed: got a null pointer'' @ [nl]) [] (settle s))"
    by (simp add: check_object_type_def ret_def dbg_log_settle [symmetric])
  moreover have "same_native (dbg_log msg args (settle s)) s" for msg args
    by (simp add: dbg_log_settled same_native_def)
  ultimately have "\<exists>s'. check_object_type NULL t s = Inr (0, s') \<and> same_native s' s"
    by blast
  moreover have "instance \<noteq> NULL \<longrightarrow> objects s instance = Some ob \<longrightarrow>
      check_object_type instance t s =
        Inr (if g_type ob = t \<or> type_is_a s (g_type ob) t then 1 else 0, s)"
    by (simp add: check_object_type_def bnd_G_TYPE_CHECK_INSTANCE_TYPE ret_def)
  ultimately show ?thesis by blast
qed

theorem check_object_type_total_witness:
  "(\<exists>s'. check_object_type NULL 80 example_heap = Inr (0, s') \<and> same_native s' example_heap) \<and>
   5 \<noteq> NULL \<and>
   objects example_heap 5 = Some \<lparr>g_type = 2000, ref_count = 1, floating = False\<rparr> \<and>
   check_object_type 5 80 example_heap = Inr (1, example_heap) \<and>
   check_object_type 5 300 example_heap = Inr (0, example_heap)"
  using check_object_type_total
          [of 80 example_heap 5 "\<lparr>g_type = 2000, ref_count = 1, floating = False\<rparr>"]
        check_object_type_total
          [of 300 example_heap 5 "\<lparr>g_type = 2000, ref_count = 1, floating = False\<rparr>"]
  by (simp add: example_heap_def example_world_def)

subsection \<open>The debug flag\<close>

text \<open>Once the flag has been read, no entry point writes the static variable or reads
  the environment, and while the flag is 0 no entry point writes to the standard error
  stream.\<close>

lemma flag_kept_refl [simp]: "flag_kept s s"
  by (simp add: flag_kept_def)

lemma flag_kept_trans: "flag_kept s s1 \<Longrightarrow> flag_kept s1 s2 \<Longrightarrow> flag_kept s s2"
  by (simp add: flag_kept_def)

lemma flag_kept_settled: "flag_kept s s' \<Longrightarrow> settled s \<Longrightarrow> settled s'"
  by (simp add: flag_kept_def settled_def)

lemma check_object_type_keeps:
  "settled s \<Longrightarrow> check_object_type p t s = Inr (r, s') \<Longrightarrow> flag_kept s s'"
  by (auto simp add: check_object_type_def run_simps flag_kept_def
      split: if_splits option.splits)

lemma boxed_free_helper_keeps: "flag_kept s (boxed_free_helper t b s)"
  by (simp add: boxed_free_helper_def g_malloc_def g_idle_add_def flag_kept_def Let_def)

lemma main_loop_boxed_free_helper_keeps:
  "settled s \<Longrightarrow> main_loop_boxed_free_helper p s = Inr (r, s') \<Longrightarrow> flag_kept s s'"
  by (auto simp add: main_loop_boxed_free_helper_def run_simps flag_kept_def
      split: if_splits option.splits)

lemma dbg_g_object_disown_keeps:
  "settled s \<Longrightarrow> dbg_g_object_disown p s = Inr (r, s') \<Longrightarrow> flag_kept s s'"
  by (auto simp add: dbg_g_object_disown_def run_simps flag_kept_def
      split: if_splits option.splits)

lemma g_object_unref_in_main_loop_keeps:
  "settled s \<Longrightarrow> g_object_unref_in_main_loop p s = Inr (r, s') \<Longrightarrow> flag_kept s s'"
  by (auto simp add: g_object_unref_in_main_loop_def print_object_dbg_info_def run_simps
      flag_kept_def split: if_splits option.splits)

lemma dbg_g_object_unref_keeps: "flag_kept s (dbg_g_object_unref p s)"
  by (simp add: dbg_g_object_unref_def g_idle_add_def flag_kept_def)

lemma dbg_g_object_new_keeps:
  "settled s \<Longrightarrow> dbg_g_object_new t n names vals s = Inr (r, s') \<Longrightarrow> flag_kept s s'"
  by (auto simp add: dbg_g_object_new_def run_simps new_simps flag_kept_def
      split: if_splits option.splits)

lemma safeFreeFunPtr_keeps: "flag_kept s (safeFreeFunPtr p s)"
  by (simp add: safeFreeFunPtr_def freeHaskellFunctionPtr_def flag_kept_def)

lemma dbg_log_with_len_keeps: "settled s \<Longrightarrow> flag_kept s (dbg_log_with_len msg len s)"
  by (simp add: dbg_log_with_len_settled flag_kept_def)

lemma main_loop_dispatch_keeps:
  assumes "settled s" and "main_loop_dispatch s = Inr (r, s')"
  shows "flag_kept s s'"
proof (cases "idle_sources s")
  case Nil
  with assms show ?thesis by (simp add: main_loop_dispatch_def)
next
  case (Cons src rest)
  obtain f d where src: "src = (f, d)" by (cases src)
  let ?s0 = "s\<lparr>idle_sources := rest\<rparr>"
  from assms(2) Cons src obtain again s1 where
    run: "invoke f d ?s0 = Inr (again, s1)" and
    s': "s' = (if again then s1\<lparr>idle_sources := idle_sources s1 @ [(f, d)]\<rparr> else s1)"
    by (auto simp add: main_loop_dispatch_def split: sum.splits)
  have set0: "settled ?s0" using assms(1) by simp
  have "flag_kept ?s0 s1"
  proof (cases f)
    case Fn_g_object_unref_in_main_loop
    with run have "g_object_unref_in_main_loop d ?s0 = Inr (again, s1)" by simp
    with set0 show ?thesis by (rule g_object_unref_in_main_loop_keeps)
  next
    case Fn_main_loop_boxed_free_helper
    with run have "main_loop_boxed_free_helper d ?s0 = Inr (again, s1)" by simp
    with set0 show ?thesis by (rule main_loop_boxed_free_helper_keeps)
  qed
  with s' show ?thesis by (simp add: flag_kept_def)
qed

lemma exec_keeps:
  assumes "settled s" and "exec c s = Inr (r, s')"
  shows "flag_kept s s'"
proof (cases c)
  case (Call_check_object_type p t)
  with assms show ?thesis
    by (auto simp add: bnd_def ret_def split: sum.splits dest: check_object_type_keeps)
next
  case (Call_boxed_free_helper t b)
  with assms show ?thesis by (auto simp add: ret_def boxed_free_helper_keeps)
next
  case (Call_main_loop_boxed_free_helper p)
  with assms show ?thesis
    by (auto simp add: bnd_def ret_def split: sum.splits dest: main_loop_boxed_free_helper_keeps)
next
  case (Call_dbg_g_object_disown p)
  with assms show ?thesis
    by (auto simp add: bnd_def ret_def split: sum.splits dest: dbg_g_object_disown_keeps)
next
  case (Call_g_object_unref_in_main_loop p)
  with assms show ?thesis
    by (auto simp add: bnd_def ret_def split: sum.splits dest: g_object_unref_in_main_loop_keeps)
next
  case (Call_dbg_g_object_unref p)
  with assms show ?thesis by (auto simp add: ret_def dbg_g_object_unref_keeps)
next
  case (Call_dbg_g_object_new t n names vals)
  with assms show ?thesis
    by (auto simp add: bnd_def ret_def split: sum.splits dest: dbg_g_object_new_keeps)
next
  case (Call_safeFreeFunPtr p)
  with assms show ?thesis by (auto simp add: ret_def safeFreeFunPtr_keeps)
next
  case (Call_dbg_log_with_len msg len)
  with assms show ?thesis by (auto simp add: ret_def dbg_log_with_len_keeps)
next
  case Call_main_loop_dispatch
  with assms show ?thesis
    by (auto simp add: bnd_def ret_def split: sum.splits dest: main_loop_dispatch_keeps)
next
  case (Call_setenv name v)
  with assms show ?thesis by (auto simp add: ret_def flag_kept_def)
qed

lemma exec_all_keeps:
  "settled s \<Longrightarrow> exec_all cs s = Inr (r, s') \<Longrightarrow> flag_kept s s'"
proof (induction cs arbitrary: s)
  case Nil
  then show ?case by (simp add: ret_def)
next
  case (Cons c cs)
  from Cons.prems(2) obtain x s1 where
    c: "exec c s = Inr (x, s1)" and cs: "exec_all cs s1 = Inr (r, s')"
    by (auto simp add: bnd_def split: sum.splits)
  have k1: "flag_kept s s1" using Cons.prems(1) c by (rule exec_keeps)
  then have "settled s1" using Cons.prems(1) by (rule flag_kept_settled)
  then have "flag_kept s1 s'" using cs by (rule Cons.IH)
  with k1 show ?case by (rule flag_kept_trans)
qed

text \<open>
  C6: the flag is read from the environment at most once and does not change afterwards.
  Take any call of \<open>print_debug_info\<close>, let the process go on with any calls into the
  file, callbacks run by the main loop and changes of the environment, and call
  \<open>print_debug_info\<close> again: it returns what the earlier call returned and leaves the
  world untouched. The earlier call read the environment once if the flag had not been
  read before and not at all otherwise, and nothing after it reads the environment.
\<close>

theorem print_debug_info_stable:
  assumes "print_debug_info s = (r1, s1)" and "exec_all cs s1 = Inr ((), s2)"
  shows "print_debug_info s2 = (r1, s2) \<and>
         trace s1 = trace s @
           (if static_print_debug_info s = - 1 then [Getenv ''HASKELL_GI_DEBUG_MEM''] else []) \<and>
         filter is_getenv (trace s2) = filter is_getenv (trace s1)"
proof -
  from assms(1) have s1: "s1 = settle s" and r1: "r1 = static_print_debug_info s1"
    by (auto simp add: print_debug_info_settle)
  have set1: "settled s1" by (simp add: s1)
  then have kept: "flag_kept s1 s2" using assms(2) by (rule exec_all_keeps)
  then have "settled s2" using set1 by (rule flag_kept_settled)
  then have "print_debug_info s2 = (static_print_debug_info s2, s2)"
    by (rule print_debug_info_settled)
  with kept r1 have "print_debug_info s2 = (r1, s2)" by (simp add: flag_kept_def)
  moreover have "trace s1 = trace s @
      (if static_print_debug_info s = - 1 then [Getenv ''HASKELL_GI_DEBUG_MEM''] else [])"
    by (simp add: s1 trace_settle)
  ultimately show ?thesis using kept by (simp add: flag_kept_def)
qed

theorem print_debug_info_stable_witness:
  "\<exists>s1 s2.
     print_debug_info (example_world\<lparr>environ := [''HASKELL_GI_DEBUG_MEM'' \<mapsto> ''1'']\<rparr>) = (1, s1) \<and>
     exec_all [Call_setenv ''HASKELL_GI_DEBUG_MEM'' None, Call_dbg_log_with_len ''leak'' 4,
               Call_check_object_type NULL 80] s1 = Inr ((), s2) \<and>
     environ s2 ''HASKELL_GI_DEBUG_MEM'' = None \<and>
     print_debug_info s2 = (1, s2)"
proof -
  let ?w = "example_world\<lparr>environ := [''HASKELL_GI_DEBUG_MEM'' \<mapsto> ''1'']\<rparr>"
  let ?cs = "[Call_setenv ''HASKELL_GI_DEBUG_MEM'' None, Call_dbg_log_with_len ''leak'' 4,
              Call_check_object_type NULL 80]"
  have on: "static_print_debug_info (settle ?w) = 1"
    by (simp add: settle_def print_debug_info_def getenv_def example_world_def)
  have h1: "print_debug_info ?w = (1, settle ?w)"
    by (simp add: print_debug_info_settle on)
  have "\<exists>s2. exec_all ?cs (settle ?w) = Inr ((), s2) \<and> environ s2 ''HASKELL_GI_DEBUG_MEM'' = None"
    by (simp add: check_object_type_def dbg_log_with_len_settled dbg_log_settled on ret_def
        bnd_assoc)
  then obtain s2 where h2: "exec_all ?cs (settle ?w) = Inr ((), s2)"
    and unset: "environ s2 ''HASKELL_GI_DEBUG_MEM'' = None"
    by blast
  from print_debug_info_stable [OF h1 h2] have "print_debug_info s2 = (1, s2)"
    by simp
  with h1 h2 unset show ?thesis by blast
qed

subsection \<open>The log\<close>

lemma toggle_off_dequeue [simp]: "toggle_off (s\<lparr>idle_sources := q\<rparr>) = toggle_off s"
  by (simp add: toggle_off_def)

lemma quiet_after_settle:
  assumes "toggle_off s" and "flag_kept (settle s) s'"
  shows "stderr_writes (trace s') = stderr_writes (trace s)"
  using assms toggle_off_settle [OF assms(1)] by (simp add: flag_kept_def)

lemma dbg_log_quiet:
  assumes "toggle_off s"
  shows "stderr_writes (trace (dbg_log fmt args s)) = stderr_writes (trace s)"
proof -
  have "dbg_log fmt args s = settle s"
    by (subst dbg_log_settle) (simp add: dbg_log_settled toggle_off_settle [OF assms])
  then show ?thesis by simp
qed

lemma dbg_log_with_len_quiet:
  assumes "toggle_off s"
  shows "stderr_writes (trace (dbg_log_with_len msg len s)) = stderr_writes (trace s)"
proof -
  have "dbg_log_with_len msg len s = settle s"
    by (subst dbg_log_with_len_settle)
       (simp add: dbg_log_with_len_settled toggle_off_settle [OF assms])
  then show ?thesis by simp
qed

lemma check_object_type_quiet:
  "toggle_off s \<Longrightarrow> check_object_type p t s = Inr (r, s') \<Longrightarrow>
   stderr_writes (trace s') = stderr_writes (trace s)"
  by (auto simp add: check_object_type_def bnd_G_TYPE_CHECK_INSTANCE_TYPE ret_def dbg_log_quiet
      split: if_splits option.splits)

lemma main_loop_boxed_free_helper_quiet:
  assumes "toggle_off s" and "main_loop_boxed_free_helper p s = Inr (r, s')"
  shows "stderr_writes (trace s') = stderr_writes (trace s)"
proof -
  from assms(2) have "main_loop_boxed_free_helper p (settle s) = Inr (r, s')"
    by (simp add: main_loop_boxed_free_helper_settle [symmetric])
  with settle_settled have "flag_kept (settle s) s'"
    by (rule main_loop_boxed_free_helper_keeps)
  with assms(1) show ?thesis by (rule quiet_after_settle)
qed

lemma dbg_g_object_disown_quiet:
  assumes "toggle_off s" and "dbg_g_object_disown p s = Inr (r, s')"
  shows "stderr_writes (trace s') = stderr_writes (trace s)"
proof -
  from assms(2) have "dbg_g_object_disown p (settle s) = Inr (r, s')"
    by (simp add: dbg_g_object_disown_settle [symmetric])
  with settle_settled have "flag_kept (settle s) s'"
    by (rule dbg_g_object_disown_keeps)
  with assms(1) show ?thesis by (rule quiet_after_settle)
qed

lemma g_object_unref_in_main_loop_quiet:
  assumes "toggle_off s" and "g_object_unref_in_main_loop p s = Inr (r, s')"
  shows "stderr_writes (trace s') = stderr_writes (trace s)"
proof -
  from assms(2) have "g_object_unref_in_main_loop p (settle s) = Inr (r, s')"
    by (simp add: g_object_unref_in_main_loop_settle [symmetric])
  with settle_settled have "flag_kept (settle s) s'"
    by (rule g_object_unref_in_main_loop_keeps)
  with assms(1) show ?thesis by (rule quiet_after_settle)
qed

lemma dbg_g_object_new_quiet:
  assumes "toggle_off s" and "dbg_g_object_new t n names vals s = Inr (r, s')"
  shows "stderr_writes (trace s') = stderr_writes (trace s)"
proof -
  from assms(2) have "dbg_g_object_new t n names vals (settle s) = Inr (r, s')"
    by (simp add: dbg_g_object_new_settle [symmetric])
  with settle_settled have "flag_kept (settle s) s'"
    by (rule dbg_g_object_new_keeps)
  with assms(1) show ?thesis by (rule quiet_after_settle)
qed

lemma main_loop_dispatch_quiet:
  assumes "toggle_off s" and "main_loop_dispatch s = Inr (r, s')"
  shows "stderr_writes (trace s') = stderr_writes (trace s)"
proof (cases "idle_sources s")
  case Nil
  with assms show ?thesis by (simp add: main_loop_dispatch_def)
next
  case (Cons src rest)
  obtain f d where src: "src = (f, d)" by (cases src)
  let ?s0 = "s\<lparr>idle_sources := rest\<rparr>"
  from assms(2) Cons src obtain again s1 where
    run: "invoke f d ?s0 = Inr (again, s1)" and
    s': "s' = (if again then s1\<lparr>idle_sources := idle_sources s1 @ [(f, d)]\<rparr> else s1)"
    by (auto simp add: main_loop_dispatch_def split: sum.splits)
  have off0: "toggle_off ?s0" using assms(1) by simp
  have "stderr_writes (trace s1) = stderr_writes (trace ?s0)"
  proof (cases f)
    case Fn_g_object_unref_in_main_loop
    with run have "g_object_unref_in_main_loop d ?s0 = Inr (again, s1)" by simp
    with off0 show ?thesis by (rule g_object_unref_in_main_loop_quiet)
  next
    case Fn_main_loop_boxed_free_helper
    with run have "main_loop_boxed_free_helper d ?s0 = Inr (again, s1)" by simp
    with off0 show ?thesis by (rule main_loop_boxed_free_helper_quiet)
  qed
  with s' show ?thesis by simp
qed

lemma exec_quiet:
  assumes "toggle_off s" and "exec c s = Inr (r, s')"
  shows "stderr_writes (trace s') = stderr_writes (trace s)"
proof (cases c)
  case (Call_check_object_type p t)
  with assms show ?thesis
    by (auto simp add: bnd_def ret_def split: sum.splits dest: check_object_type_quiet)
next
  case (Call_boxed_free_helper t b)
  with assms show ?thesis
    by (auto simp add: ret_def boxed_free_helper_def g_malloc_def g_idle_add_def Let_def)
next
  case (Call_main_loop_boxed_free_helper p)
  with assms show ?thesis
    by (auto simp add: bnd_def ret_def split: sum.splits dest: main_loop_boxed_free_helper_quiet)
next
  case (Call_dbg_g_object_disown p)
  with assms show ?thesis
    by (auto simp add: bnd_def ret_def split: sum.splits dest: dbg_g_object_disown_quiet)
next
  case (Call_g_object_unref_in_main_loop p)
  with assms show ?thesis
    by (auto simp add: bnd_def ret_def split: sum.splits dest: g_object_unref_in_main_loop_quiet)
next
  case (Call_dbg_g_object_unref p)
  with assms show ?thesis
    by (auto simp add: ret_def dbg_g_object_unref_def g_idle_add_def)
next
  case (Call_dbg_g_object_new t n names vals)
  with assms show ?thesis
    by (auto simp add: bnd_def ret_def split: sum.splits dest: dbg_g_object_new_quiet)
next
  case (Call_safeFreeFunPtr p)
  with assms show ?thesis
    by (auto simp add: ret_def safeFreeFunPtr_def freeHaskellFunctionPtr_def)
next
  case (Call_dbg_log_with_len msg len)
  with assms show ?thesis by (auto simp add: ret_def dbg_log_with_len_quiet)
next
  case Call_main_loop_dispatch
  with assms show ?thesis
    by (auto simp add: bnd_def ret_def split: sum.splits dest: main_loop_dispatch_quiet)
next
  case (Call_setenv name v)
  with assms show ?thesis by (auto simp add: ret_def)
qed

text \<open>
  C7: while the toggle is off (absent from the environment when the flag is read, the
  flag being cached from then on), neither \<open>dbg_log_with_len\<close> nor \<open>dbg_log\<close>
  writes to the standard error stream, whatever the message, the length and the
  arguments. The cached flag gates every diagnostic write of the file: with the toggle
  off, no entry point and no callback writes to the standard error stream.
\<close>

theorem logging_silent_when_off:
  assumes "toggle_off s"
  shows "stderr_writes (trace (dbg_log_with_len msg len s)) = stderr_writes (trace s) \<and>
         stderr_writes (trace (dbg_log fmt args s)) = stderr_writes (trace s) \<and>
         (\<forall>c r s'. exec c s = Inr (r, s') \<longrightarrow>
            stderr_writes (trace s') = stderr_writes (trace s))"
  using assms dbg_log_with_len_quiet dbg_log_quiet exec_quiet by blast

theorem logging_silent_when_off_witness:
  "toggle_off example_heap \<and>
   stderr_writes (trace (dbg_log_with_len ''leak'' 4 example_heap)) = [] \<and>
   stderr_writes (trace (dbg_log ''at %p'' [ArgP 5] example_heap)) = [] \<and>
   (\<exists>s'. exec (Call_check_object_type NULL 80) example_heap = Inr (RInt 0, s') \<and>
          stderr_writes (trace s') = [])"
proof -
  have h: "toggle_off example_heap"
    by (simp add: toggle_off_def example_heap_def example_world_def)
  have tr: "trace example_heap = []"
    by (simp add: example_heap_def example_world_def)
  have run: "\<exists>s'. exec (Call_check_object_type NULL 80) example_heap = Inr (RInt 0, s')"
    by (simp add: check_object_type_def bnd_assoc ret_def)
  then obtain s' where
    run': "exec (Call_check_object_type NULL 80) example_heap = Inr (RInt 0, s')" ..
  note all = logging_silent_when_off [OF h, of "''leak''" 4 "''at %p''" "[ArgP 5]"]
  from all have "stderr_writes (trace (dbg_log_with_len ''leak'' 4 example_heap)) = []"
    and "stderr_writes (trace (dbg_log ''at %p'' [ArgP 5] example_heap)) = []"
    by (simp_all add: tr)
  moreover from all run'
  have "stderr_writes (trace s') = stderr_writes (trace example_heap)"
    by blast
  then have "stderr_writes (trace s') = []"
    by (simp add: tr)
  ultimately show ?thesis using h run' by blast
qed

subsection \<open>Disown\<close>

lemma settle_frame:
  "settle s = s\<lparr>static_print_debug_info := static_print_debug_info (settle s),
                  trace := trace (settle s)\<rparr>"
  by (simp add: settle_def print_debug_info_def getenv_def emit_def Let_def)

lemma toggle_off_settle_iff: "toggle_off (settle s) = toggle_off s"
  by (auto simp add: toggle_off_def settle_def print_debug_info_def getenv_def Let_def)

lemma dbg_g_object_disown_settled:
  assumes "settled s" and "objects s obj \<noteq> None \<or> static_print_debug_info s = 0"
  shows "\<exists>s'. dbg_g_object_disown obj s = Inr ((), s') \<and>
           s' = s\<lparr>trace := trace s'\<rparr> \<and>
           effects (trace s') = effects (trace s) \<and>
           (static_print_debug_info s = 0 \<longrightarrow> s' = s)"
  using assms by (auto simp add: dbg_g_object_disown_def run_simps emit_def)

text \<open>
  C8: \<open>dbg_g_object_disown\<close> on a handle to a live object (or, with the toggle off, on
  any pointer at all) returns, and changes neither the object store (so the object's
  reference count after the call is the count before it) nor anything else on the
  native side: the world afterwards is the world before except for the cached flag and
  the trace, the trace has gained diagnostic events only, and with the toggle off
  nothing is written to the standard error stream.
\<close>

theorem dbg_g_object_disown_frame:
  assumes "objects s obj \<noteq> None \<or> toggle_off s"
  shows "\<exists>s'. dbg_g_object_disown obj s = Inr ((), s') \<and>
           objects s' = objects s \<and>
           s' = s\<lparr>static_print_debug_info := static_print_debug_info s', trace := trace s'\<rparr> \<and>
           effects (trace s') = effects (trace s) \<and>
           (toggle_off s \<longrightarrow> stderr_writes (trace s') = stderr_writes (trace s))"
proof -
  have live: "objects (settle s) obj \<noteq> None \<or> static_print_debug_info (settle s) = 0"
    using assms by (auto dest: toggle_off_settle)
  from dbg_g_object_disown_settled [OF settle_settled live]
  obtain s' where run: "dbg_g_object_disown obj (settle s) = Inr ((), s')"
    and frame: "s' = (settle s)\<lparr>trace := trace s'\<rparr>"
    and eff: "effects (trace s') = effects (trace (settle s))"
    and off: "static_print_debug_info (settle s) = 0 \<longrightarrow> s' = settle s"
    by blast
  have "dbg_g_object_disown obj s = Inr ((), s')"
    using run by (simp add: dbg_g_object_disown_settle [symmetric])
  moreover have "objects s' = objects s"
    by (subst frame) simp
  moreover have "static_print_debug_info s' = static_print_debug_info (settle s)"
    by (subst frame) simp
  then have "s' = s\<lparr>static_print_debug_info := static_print_debug_info s', trace := trace s'\<rparr>"
    by (subst frame, subst settle_frame) simp
  moreover have "effects (trace s') = effects (trace s)"
    using eff by simp
  moreover have "toggle_off s \<longrightarrow> stderr_writes (trace s') = stderr_writes (trace s)"
    using off by (auto dest: toggle_off_settle)
  ultimately show ?thesis by blast
qed

theorem dbg_g_object_disown_frame_witness:
  "objects (example_heap\<lparr>environ := [''HASKELL_GI_DEBUG_MEM'' \<mapsto> ''1'']\<rparr>) 6 \<noteq> None \<and>
   (\<exists>s'. dbg_g_object_disown 6
             (example_heap\<lparr>environ := [''HASKELL_GI_DEBUG_MEM'' \<mapsto> ''1'']\<rparr>) = Inr ((), s') \<and>
          objects s' 6 = Some \<lparr>g_type = 80, ref_count = 3, floating = False\<rparr> \<and>
          effects (trace s') = [])"
proof -
  let ?on = "example_heap\<lparr>environ := [''HASKELL_GI_DEBUG_MEM'' \<mapsto> ''1'']\<rparr>"
  have h: "objects ?on 6 = Some \<lparr>g_type = 80, ref_count = 3, floating = False\<rparr>"
    by (simp add: example_heap_def)
  have tr: "trace ?on = []"
    by (simp add: example_heap_def example_world_def)
  from dbg_g_object_disown_frame [of ?on 6] tr h show ?thesis
    by auto
qed

subsection \<open>Deferred disposal\<close>

lemma main_loop_iterations_idle:
  "idle_sources s = [] \<Longrightarrow> main_loop_iterations n s = Inr ((), s)"
  by (induction n) (simp_all add: ret_def bnd_def main_loop_dispatch_def)

lemma main_loop_dispatch_once:
  assumes "idle_sources s = [(f, d)]"
    and "invoke f d (s\<lparr>idle_sources := []\<rparr>) = Inr (False, s')"
    and "idle_sources s' = []"
  shows "main_loop_iterations (Suc n) s = Inr ((), s')"
  using assms by (simp add: bnd_def main_loop_dispatch_def main_loop_iterations_idle)

lemma main_loop_dispatch_head:
  assumes "idle_sources s = (f, d) # rest"
    and "invoke f d (s\<lparr>idle_sources := rest\<rparr>) = Inr (False, s')"
  shows "main_loop_dispatch s = Inr ((), s')"
  using assms by (simp add: main_loop_dispatch_def)

lemma g_object_unref_in_main_loop_settled:
  assumes "settled s" and "obj \<noteq> NULL" and "objects s obj = Some ob" and "ref_count ob \<noteq> 0"
  shows "\<exists>s'. g_object_unref_in_main_loop obj s = Inr (False, s') \<and>
           effects (trace s') = effects (trace s) @ [G_object_unref obj] \<and>
           objects s' = (if ref_count ob = 1 then (objects s)(obj := None)
                         else (objects s)(obj \<mapsto> ob\<lparr>ref_count := ref_count ob - 1\<rparr>)) \<and>
           idle_sources s' = idle_sources s \<and> infos s' = infos s"
  using assms
  by (simp add: g_object_unref_in_main_loop_def print_object_dbg_info_def run_simps)

lemma g_object_unref_in_main_loop_runs:
  assumes "obj \<noteq> NULL" and "objects s obj = Some ob" and "ref_count ob \<noteq> 0"
  shows "\<exists>s'. g_object_unref_in_main_loop obj s = Inr (False, s') \<and>
           effects (trace s') = effects (trace s) @ [G_object_unref obj] \<and>
           objects s' = (if ref_count ob = 1 then (objects s)(obj := None)
                         else (objects s)(obj \<mapsto> ob\<lparr>ref_count := ref_count ob - 1\<rparr>)) \<and>
           idle_sources s' = idle_sources s \<and> infos s' = infos s"
proof -
  have live: "objects (settle s) obj = Some ob" using assms(2) by simp
  show ?thesis
    using g_object_unref_in_main_loop_settled [OF settle_settled assms(1) live assms(3)]
    unfolding settle_simps effects_settle g_object_unref_in_main_loop_settle [symmetric] .
qed

text \<open>
  C1: \<open>dbg_g_object_unref\<close> on a handle to a live object releases nothing itself: all it
  does is add one idle source for \<open>g_object_unref_in_main_loop\<close> with the handle as
  data. When that callback runs on the handle, it calls \<open>g_object_unref\<close> on it once
  (the count goes down by one, the last reference finalizing the object) and returns
  \<open>FALSE\<close>, so the main loop, dispatching the source at the head of its queue, runs
  it once and drops it. After a request on an empty queue, any positive number of loop
  iterations ends with an empty queue and exactly one \<open>g_object_unref\<close> of the
  handle.
\<close>

theorem dbg_g_object_unref_deferred:
  assumes "obj \<noteq> NULL" and "objects s obj = Some ob" and "ref_count ob \<noteq> 0"
  shows "dbg_g_object_unref obj s =
           s\<lparr>idle_sources := idle_sources s @ [(Fn_g_object_unref_in_main_loop, obj)],
              trace := trace s @ [G_idle_add Fn_g_object_unref_in_main_loop obj]\<rparr> \<and>
         (\<exists>s'. g_object_unref_in_main_loop obj s = Inr (False, s') \<and>
            effects (trace s') = effects (trace s) @ [G_object_unref obj] \<and>
            objects s' = (if ref_count ob = 1 then (objects s)(obj := None)
                          else (objects s)(obj \<mapsto> ob\<lparr>ref_count := ref_count ob - 1\<rparr>))) \<and>
         (idle_sources s = (Fn_g_object_unref_in_main_loop, obj) # rest \<longrightarrow>
            (\<exists>s'. main_loop_dispatch s = Inr ((), s') \<and>
               idle_sources s' = rest \<and>
               effects (trace s') = effects (trace s) @ [G_object_unref obj])) \<and>
         (idle_sources s = [] \<longrightarrow>
            (\<exists>s'. main_loop_iterations (Suc n) (dbg_g_object_unref obj s) = Inr ((), s') \<and>
               idle_sources s' = [] \<and>
               effects (trace s') = effects (trace s) @
                 [G_idle_add Fn_g_object_unref_in_main_loop obj, G_object_unref obj] \<and>
               objects s' = (if ref_count ob = 1 then (objects s)(obj := None)
                             else (objects s)(obj \<mapsto> ob\<lparr>ref_count := ref_count ob - 1\<rparr>))))"
proof -
  have submit: "dbg_g_object_unref obj s =
      s\<lparr>idle_sources := idle_sources s @ [(Fn_g_object_unref_in_main_loop, obj)],
         trace := trace s @ [G_idle_add Fn_g_object_unref_in_main_loop obj]\<rparr>"
    by (simp add: dbg_g_object_unref_def g_idle_add_def emit_def)
  have callback: "\<exists>s'. g_object_unref_in_main_loop obj s = Inr (False, s') \<and>
      effects (trace s') = effects (trace s) @ [G_object_unref obj] \<and>
      objects s' = (if ref_count ob = 1 then (objects s)(obj := None)
                    else (objects s)(obj \<mapsto> ob\<lparr>ref_count := ref_count ob - 1\<rparr>))"
    using g_object_unref_in_main_loop_runs [OF assms] by blast
  have head: "\<exists>s'. main_loop_dispatch s = Inr ((), s') \<and> idle_sources s' = rest \<and>
      effects (trace s') = effects (trace s) @ [G_object_unref obj]"
    if q: "idle_sources s = (Fn_g_object_unref_in_main_loop, obj) # rest"
  proof -
    let ?s0 = "s\<lparr>idle_sources := rest\<rparr>"
    have live: "objects ?s0 obj = Some ob" using assms(2) by simp
    from g_object_unref_in_main_loop_runs [OF assms(1) live assms(3)]
    obtain s' where run: "g_object_unref_in_main_loop obj ?s0 = Inr (False, s')"
      and eff: "effects (trace s') = effects (trace ?s0) @ [G_object_unref obj]"
      and idle: "idle_sources s' = idle_sources ?s0"
      by blast
    have inv: "invoke Fn_g_object_unref_in_main_loop obj ?s0 = Inr (False, s')"
      using run by simp
    have "main_loop_dispatch s = Inr ((), s')"
      by (rule main_loop_dispatch_head [OF q inv])
    with eff idle show ?thesis by simp
  qed
  have loop: "\<exists>s'. main_loop_iterations (Suc n) (dbg_g_object_unref obj s) = Inr ((), s') \<and>
      idle_sources s' = [] \<and>
      effects (trace s') = effects (trace s) @
        [G_idle_add Fn_g_object_unref_in_main_loop obj, G_object_unref obj] \<and>
      objects s' = (if ref_count ob = 1 then (objects s)(obj := None)
                    else (objects s)(obj \<mapsto> ob\<lparr>ref_count := ref_count ob - 1\<rparr>))"
    if empty: "idle_sources s = []"
  proof -
    let ?s1 = "dbg_g_object_unref obj s"
    let ?s0 = "?s1\<lparr>idle_sources := []\<rparr>"
    have q: "idle_sources ?s1 = [(Fn_g_object_unref_in_main_loop, obj)]"
      by (simp add: submit empty)
    have live: "objects ?s0 obj = Some ob"
      using assms(2) by (simp add: submit)
    from g_object_unref_in_main_loop_runs [OF assms(1) live assms(3)]
    obtain s' where run: "g_object_unref_in_main_loop obj ?s0 = Inr (False, s')"
      and eff: "effects (trace s') = effects (trace ?s0) @ [G_object_unref obj]"
      and obs: "objects s' = (if ref_count ob = 1 then (objects ?s0)(obj := None)
                              else (objects ?s0)(obj \<mapsto> ob\<lparr>ref_count := ref_count ob - 1\<rparr>))"
      and idle: "idle_sources s' = idle_sources ?s0"
      by blast
    have inv: "invoke Fn_g_object_unref_in_main_loop obj ?s0 = Inr (False, s')"
      using run by simp
    have idle0: "idle_sources s' = []" using idle by simp
    have "main_loop_iterations (Suc n) ?s1 = Inr ((), s')"
      by (rule main_loop_dispatch_once [OF q inv idle0])
    moreover note idle0
    moreover have "effects (trace s') = effects (trace s) @
        [G_idle_add Fn_g_object_unref_in_main_loop obj, G_object_unref obj]"
      using eff by (simp add: submit)
    moreover have "objects s' = (if ref_count ob = 1 then (objects s)(obj := None)
                    else (objects s)(obj \<mapsto> ob\<lparr>ref_count := ref_count ob - 1\<rparr>))"
      using obs by (simp add: submit)
    ultimately show ?thesis by blast
  qed
  from submit callback head loop show ?thesis by blast
qed

theorem dbg_g_object_unref_deferred_witness:
  "6 \<noteq> NULL \<and>
   objects example_heap 6 = Some \<lparr>g_type = 80, ref_count = 3, floating = False\<rparr> \<and>
   (3 :: 32 word) \<noteq> 0 \<and>
   idle_sources example_heap = [] \<and>
   (\<exists>s'. main_loop_iterations (Suc (Suc 0)) (dbg_g_object_unref 6 example_heap) = Inr ((), s') \<and>
      idle_sources s' = [] \<and>
      effects (trace s') = [G_idle_add Fn_g_object_unref_in_main_loop 6, G_object_unref 6] \<and>
      objects s' 6 = Some \<lparr>g_type = 80, ref_count = 2, floating = False\<rparr>)"
proof -
  have h: "objects example_heap 6 = Some \<lparr>g_type = 80, ref_count = 3, floating = False\<rparr>"
    by (simp add: example_heap_def)
  have q: "idle_sources example_heap = []" and tr: "trace example_heap = []"
    by (simp_all add: example_heap_def example_world_def)
  from dbg_g_object_unref_deferred
         [where obj = 6 and s = example_heap and n = "Suc 0"
            and ob = "\<lparr>g_type = 80, ref_count = 3, floating = False\<rparr>"] h q tr
  show ?thesis by auto
qed

lemma main_loop_boxed_free_helper_settled:
  assumes "settled s" and "infos s p = Some i"
  shows "\<exists>s'. main_loop_boxed_free_helper p s = Inr (False, s') \<and>
           effects (trace s') = effects (trace s) @
             [G_boxed_free (info_gtype i) (info_boxed i), G_free p] \<and>
           infos s' = (infos s)(p := None) \<and>
           idle_sources s' = idle_sources s \<and> objects s' = objects s"
  using assms by (simp add: main_loop_boxed_free_helper_def run_simps)

lemma main_loop_boxed_free_helper_runs:
  assumes "infos s p = Some i"
  shows "\<exists>s'. main_loop_boxed_free_helper p s = Inr (False, s') \<and>
           effects (trace s') = effects (trace s) @
             [G_boxed_free (info_gtype i) (info_boxed i), G_free p] \<and>
           infos s' = (infos s)(p := None) \<and>
           idle_sources s' = idle_sources s \<and> objects s' = objects s"
proof -
  have cell: "infos (settle s) p = Some i" using assms by simp
  show ?thesis
    using main_loop_boxed_free_helper_settled [OF settle_settled cell]
    unfolding settle_simps effects_settle main_loop_boxed_free_helper_settle [symmetric] .
qed

text \<open>
  C2: \<open>boxed_free_helper\<close> with type tag \<open>t\<close> and handle \<open>h\<close> frees nothing itself: it
  allocates one task record, stores exactly \<open>(t, h)\<close> in it and adds one idle source
  for \<open>main_loop_boxed_free_helper\<close> with the record as data. When that callback runs on
  a record holding \<open>(t, h)\<close>, it calls \<open>g_boxed_free\<close> once, on \<open>t\<close> and \<open>h\<close>, frees
  the record as the next thing it does on the native side, and returns \<open>FALSE\<close>, so
  the main loop, dispatching the source at the head of its queue, runs it once and
  drops it. After a request on an empty queue, any positive number of loop iterations
  ends with an empty queue, one \<open>g_boxed_free t h\<close> and the record gone.
\<close>

theorem boxed_free_helper_deferred:
  "boxed_free_helper t h s =
     s\<lparr>infos := (infos s)(Suc (brk s) \<mapsto> \<lparr>info_gtype = t, info_boxed = h\<rparr>),
        brk := Suc (brk s),
        idle_sources := idle_sources s @ [(Fn_main_loop_boxed_free_helper, Suc (brk s))],
        trace := trace s @
          [G_malloc (Suc (brk s)), G_idle_add Fn_main_loop_boxed_free_helper (Suc (brk s))]\<rparr> \<and>
   (infos s2 info = Some \<lparr>info_gtype = t, info_boxed = h\<rparr> \<longrightarrow>
      (\<exists>s'. main_loop_boxed_free_helper info s2 = Inr (False, s') \<and>
         effects (trace s') = effects (trace s2) @ [G_boxed_free t h, G_free info] \<and>
         infos s' = (infos s2)(info := None))) \<and>
   (infos s2 info = Some \<lparr>info_gtype = t, info_boxed = h\<rparr> \<longrightarrow>
    idle_sources s2 = (Fn_main_loop_boxed_free_helper, info) # rest \<longrightarrow>
      (\<exists>s'. main_loop_dispatch s2 = Inr ((), s') \<and>
         idle_sources s' = rest \<and>
         effects (trace s') = effects (trace s2) @ [G_boxed_free t h, G_free info] \<and>
         infos s' info = None)) \<and>
   (idle_sources s = [] \<longrightarrow>
      (\<exists>s'. main_loop_iterations (Suc n) (boxed_free_helper t h s) = Inr ((), s') \<and>
         idle_sources s' = [] \<and>
         effects (trace s') = effects (trace s) @
           [G_malloc (Suc (brk s)), G_idle_add Fn_main_loop_boxed_free_helper (Suc (brk s)),
            G_boxed_free t h, G_free (Suc (brk s))] \<and>
         infos s' (Suc (brk s)) = None))"
proof -
  let ?p = "Suc (brk s)"
  have submit: "boxed_free_helper t h s =
     s\<lparr>infos := (infos s)(?p \<mapsto> \<lparr>info_gtype = t, info_boxed = h\<rparr>),
        brk := ?p,
        idle_sources := idle_sources s @ [(Fn_main_loop_boxed_free_helper, ?p)],
        trace := trace s @ [G_malloc ?p, G_idle_add Fn_main_loop_boxed_free_helper ?p]\<rparr>"
    by (simp add: boxed_free_helper_def g_malloc_def g_idle_add_def emit_def Let_def)
  have callback: "\<exists>s'. main_loop_boxed_free_helper info s2 = Inr (False, s') \<and>
         effects (trace s') = effects (trace s2) @ [G_boxed_free t h, G_free info] \<and>
         infos s' = (infos s2)(info := None)"
    if cell: "infos s2 info = Some \<lparr>info_gtype = t, info_boxed = h\<rparr>"
    using main_loop_boxed_free_helper_runs [OF cell] by auto
  have head: "\<exists>s'. main_loop_dispatch s2 = Inr ((), s') \<and> idle_sources s' = rest \<and>
         effects (trace s') = effects (trace s2) @ [G_boxed_free t h, G_free info] \<and>
         infos s' info = None"
    if cell: "infos s2 info = Some \<lparr>info_gtype = t, info_boxed = h\<rparr>"
      and q: "idle_sources s2 = (Fn_main_loop_boxed_free_helper, info) # rest"
  proof -
    let ?s0 = "s2\<lparr>idle_sources := rest\<rparr>"
    have cell0: "infos ?s0 info = Some \<lparr>info_gtype = t, info_boxed = h\<rparr>"
      using cell by simp
    from main_loop_boxed_free_helper_runs [OF cell0]
    obtain s' where run: "main_loop_boxed_free_helper info ?s0 = Inr (False, s')"
      and eff: "effects (trace s') = effects (trace ?s0) @ [G_boxed_free t h, G_free info]"
      and gone: "infos s' = (infos ?s0)(info := None)"
      and idle: "idle_sources s' = idle_sources ?s0"
      by auto
    have inv: "invoke Fn_main_loop_boxed_free_helper info ?s0 = Inr (False, s')"
      using run by simp
    have "main_loop_dispatch s2 = Inr ((), s')"
      by (rule main_loop_dispatch_head [OF q inv])
    with eff idle gone show ?thesis by simp
  qed
  have loop: "\<exists>s'. main_loop_iterations (Suc n) (boxed_free_helper t h s) = Inr ((), s') \<and>
         idle_sources s' = [] \<and>
         effects (trace s') = effects (trace s) @
           [G_malloc ?p, G_idle_add Fn_main_loop_boxed_free_helper ?p,
            G_boxed_free t h, G_free ?p] \<and>
         infos s' ?p = None"
    if empty: "idle_sources s = []"
  proof -
    let ?s1 = "boxed_free_helper t h s"
    let ?s0 = "?s1\<lparr>idle_sources := []\<rparr>"
    have q: "idle_sources ?s1 = [(Fn_main_loop_boxed_free_helper, ?p)]"
      by (simp add: submit empty)
    have cell: "infos ?s0 ?p = Some \<lparr>info_gtype = t, info_boxed = h\<rparr>"
      by (simp add: submit)
    from main_loop_boxed_free_helper_runs [OF cell]
    obtain s' where run: "main_loop_boxed_free_helper ?p ?s0 = Inr (False, s')"
      and eff: "effects (trace s') = effects (trace ?s0) @ [G_boxed_free t h, G_free ?p]"
      and gone: "infos s' = (infos ?s0)(?p := None)"
      and idle: "idle_sources s' = idle_sources ?s0"
      by auto
    have inv: "invoke Fn_main_loop_boxed_free_helper ?p ?s0 = Inr (False, s')"
      using run by simp
    have idle0: "idle_sources s' = []" using idle by simp
    have "main_loop_iterations (Suc n) ?s1 = Inr ((), s')"
      by (rule main_loop_dispatch_once [OF q inv idle0])
    moreover note idle0
    moreover have "effects (trace s') = effects (trace s) @
           [G_malloc ?p, G_idle_add Fn_main_loop_boxed_free_helper ?p,
            G_boxed_free t h, G_free ?p]"
      using eff by (simp add: submit)
    moreover have "infos s' ?p = None"
      using gone by simp
    ultimately show ?thesis by blast
  qed
  from submit callback head loop show ?thesis by blast
qed

theorem boxed_free_helper_deferred_witness:
  "infos example_heap 9 = Some \<lparr>info_gtype = 300, info_boxed = 40\<rparr> \<and>
   (\<exists>s'. main_loop_boxed_free_helper 9 example_heap = Inr (False, s') \<and>
      effects (trace s') = [G_boxed_free 300 40, G_free 9] \<and> infos s' 9 = None) \<and>
   idle_sources example_heap = [] \<and>
   (\<exists>s'. main_loop_iterations (Suc 0) (boxed_free_helper 300 40 example_heap) = Inr ((), s') \<and>
      idle_sources s' = [] \<and>
      effects (trace s') =
        [G_malloc 101, G_idle_add Fn_main_loop_boxed_free_helper 101,
         G_boxed_free 300 40, G_free 101] \<and>
      infos s' 101 = None)"
proof -
  have h: "infos example_heap 9 = Some \<lparr>info_gtype = 300, info_boxed = 40\<rparr>"
    by (simp add: example_heap_def)
  have q: "idle_sources example_heap = []" and tr: "trace example_heap = []"
    and b: "brk example_heap = 100"
    by (simp_all add: example_heap_def example_world_def)
  from boxed_free_helper_deferred
         [where t = 300 and h = 40 and s = example_heap and ?s2.0 = example_heap
            and info = 9 and n = 0] h q tr b
  show ?thesis by auto
qed

subsection \<open>Construction\<close>

lemma dbg_g_object_new_settled:
  assumes "settled s" and "construct s gtype n names vals = Some ob"
    and "floating ob \<longrightarrow>
           g_type ob = initially_unowned s \<or> type_is_a s (g_type ob) (initially_unowned s)"
  shows "\<exists>s' ob'. dbg_g_object_new gtype n names vals s = Inr (Suc (brk s), s') \<and>
           objects s' (Suc (brk s)) = Some ob' \<and> \<not> floating ob' \<and>
           (if g_type ob = initially_unowned s \<or> type_is_a s (g_type ob) (initially_unowned s)
            then ob' = (if floating ob then ob\<lparr>floating := False\<rparr>
                        else ob\<lparr>ref_count := ref_count ob + 1\<rparr>) \<and>
                 effects (trace s') = effects (trace s) @
                   [G_object_new_with_properties gtype n names vals (Suc (brk s)),
                    G_object_ref_sink (Suc (brk s))]
            else ob' = ob \<and>
                 effects (trace s') = effects (trace s) @
                   [G_object_new_with_properties gtype n names vals (Suc (brk s))])"
  using assms by (simp add: dbg_g_object_new_def run_simps new_simps)

text \<open>
  C3: when the native constructor succeeds, \<open>dbg_g_object_new\<close> returns a non-null
  handle to an object that is not floating. If the object is of an initially-unowned
  kind, the operation calls \<open>g_object_ref_sink\<close> on it once: a floating reference
  becomes a counted one (the count stays, the flag goes), and an object that came out of
  construction already sunk gets one more counted reference. Otherwise the operation
  leaves the object exactly as constructed and makes no reference-count call at all, so
  the reference from construction is the caller's. In each case one counted reference
  is the caller's to release. The native system lets only initially-unowned kinds float.
\<close>

theorem dbg_g_object_new_owned:
  assumes "construct s gtype n names vals = Some ob"
    and "floating ob \<longrightarrow>
           g_type ob = initially_unowned s \<or> type_is_a s (g_type ob) (initially_unowned s)"
  shows "\<exists>s' ob'. dbg_g_object_new gtype n names vals s = Inr (Suc (brk s), s') \<and>
           Suc (brk s) \<noteq> NULL \<and>
           objects s' (Suc (brk s)) = Some ob' \<and> \<not> floating ob' \<and>
           (if g_type ob = initially_unowned s \<or> type_is_a s (g_type ob) (initially_unowned s)
            then ob' = (if floating ob then ob\<lparr>floating := False\<rparr>
                        else ob\<lparr>ref_count := ref_count ob + 1\<rparr>) \<and>
                 effects (trace s') = effects (trace s) @
                   [G_object_new_with_properties gtype n names vals (Suc (brk s)),
                    G_object_ref_sink (Suc (brk s))]
            else ob' = ob \<and>
                 effects (trace s') = effects (trace s) @
                   [G_object_new_with_properties gtype n names vals (Suc (brk s))])"
proof -
  have c: "construct (settle s) gtype n names vals = Some ob"
    using assms(1) by simp
  have f: "floating ob \<longrightarrow> g_type ob = initially_unowned (settle s) \<or>
             type_is_a (settle s) (g_type ob) (initially_unowned (settle s))"
    using assms(2) by simp
  show ?thesis
    using dbg_g_object_new_settled [OF settle_settled c f]
    unfolding settle_simps effects_settle dbg_g_object_new_settle [symmetric]
    by simp
qed

theorem dbg_g_object_new_owned_witness:
  "construct example_world 2000 0 [] [] = Some \<lparr>g_type = 2000, ref_count = 1, floating = True\<rparr> \<and>
   construct example_world 80 0 [] [] = Some \<lparr>g_type = 80, ref_count = 1, floating = False\<rparr> \<and>
   (\<exists>s'. dbg_g_object_new 2000 0 [] [] example_world = Inr (101, s') \<and>
      objects s' 101 = Some \<lparr>g_type = 2000, ref_count = 1, floating = False\<rparr> \<and>
      effects (trace s') = [G_object_new_with_properties 2000 0 [] [] 101, G_object_ref_sink 101]) \<and>
   (\<exists>s'. dbg_g_object_new 80 0 [] [] example_world = Inr (101, s') \<and>
      objects s' 101 = Some \<lparr>g_type = 80, ref_count = 1, floating = False\<rparr> \<and>
      effects (trace s') = [G_object_new_with_properties 80 0 [] [] 101])"
proof -
  have w: "construct example_world 2000 0 [] [] =
             Some \<lparr>g_type = 2000, ref_count = 1, floating = True\<rparr>"
    and g: "construct example_world 80 0 [] [] =
             Some \<lparr>g_type = 80, ref_count = 1, floating = False\<rparr>"
    and facts: "brk example_world = 100" "trace example_world = []"
      "initially_unowned example_world = 1000"
      "type_is_a example_world 2000 1000" "\<not> type_is_a example_world 80 1000"
    by (simp_all add: example_world_def)
  from dbg_g_object_new_owned [OF w] dbg_g_object_new_owned [OF g] w g facts
  show ?thesis by auto
qed

subsection \<open>The toggle and the native side\<close>































subsection \<open>The log mutex\<close>

text \<open>Within one thread, every call into the file keeps the lock discipline: the events
  it adds to the trace lock and unlock the mutex in matching pairs, and every write to
  the standard error stream lies inside such a pair. What this buys against other
  threads is the mutex's business and outside a sequential model.\<close>

lemma lock_scan_append:
  "lock_scan d es = Some d' \<Longrightarrow> lock_scan d (es @ fs) = lock_scan d' fs"
proof (induction d es rule: lock_scan.induct)
  case (3 d es)
  then show ?case by (cases d) simp_all
qed (simp_all split: if_splits)

lemma disciplined_refl [simp]: "disciplined s s"
  by (simp add: disciplined_def)

lemma disciplined_trans:
  assumes "disciplined s s1" and "disciplined s1 s2"
  shows "disciplined s s2"
proof -
  from assms obtain e1 e2 where
    t1: "trace s1 = trace s @ e1" and l1: "lock_scan 0 e1 = Some 0" and
    t2: "trace s2 = trace s1 @ e2" and l2: "lock_scan 0 e2 = Some 0"
    by (auto simp add: disciplined_def)
  have "trace s2 = trace s @ (e1 @ e2)" using t1 t2 by simp
  moreover have "lock_scan 0 (e1 @ e2) = Some 0"
    using lock_scan_append [OF l1] l2 by simp
  ultimately show ?thesis unfolding disciplined_def by blast
qed

lemma disciplined_settle: "disciplined s (settle s)"
  by (simp add: disciplined_def trace_settle)

lemma disciplined_idle_sources [simp]:
  "disciplined (s\<lparr>idle_sources := q\<rparr>) s' = disciplined s s'"
  "disciplined s (s'\<lparr>idle_sources := q\<rparr>) = disciplined s s'"
  by (simp_all add: disciplined_def)

lemma dbg_log_disciplined: "disciplined s (dbg_log msg args s)"
proof -
  have "disciplined (settle s) (dbg_log msg args (settle s))"
    by (simp add: dbg_log_settled disciplined_def)
  with disciplined_settle show ?thesis
    unfolding dbg_log_settle [symmetric] by (rule disciplined_trans)
qed

lemma dbg_log_with_len_disciplined: "disciplined s (dbg_log_with_len msg len s)"
proof -
  have "disciplined (settle s) (dbg_log_with_len msg len (settle s))"
    by (simp add: dbg_log_with_len_settled disciplined_def)
  with disciplined_settle show ?thesis
    unfolding dbg_log_with_len_settle [symmetric] by (rule disciplined_trans)
qed

lemma check_object_type_disciplined:
  "check_object_type p t s = Inr (r, s') \<Longrightarrow> disciplined s s'"
  by (auto simp add: check_object_type_def bnd_G_TYPE_CHECK_INSTANCE_TYPE ret_def
      dbg_log_disciplined split: if_splits option.splits)

lemma main_loop_boxed_free_helper_disciplined:
  assumes "main_loop_boxed_free_helper p s = Inr (r, s')"
  shows "disciplined s s'"
proof -
  from assms have "main_loop_boxed_free_helper p (settle s) = Inr (r, s')"
    by (simp add: main_loop_boxed_free_helper_settle [symmetric])
  then have "disciplined (settle s) s'"
    by (auto simp add: main_loop_boxed_free_helper_def run_simps disciplined_def
        split: if_splits option.splits)
  with disciplined_settle show ?thesis by (rule disciplined_trans)
qed

lemma dbg_g_object_disown_disciplined:
  assumes "dbg_g_object_disown p s = Inr (r, s')"
  shows "disciplined s s'"
proof -
  from assms have "dbg_g_object_disown p (settle s) = Inr (r, s')"
    by (simp add: dbg_g_object_disown_settle [symmetric])
  then have "disciplined (settle s) s'"
    by (auto simp add: dbg_g_object_disown_def run_simps disciplined_def
        split: if_splits option.splits)
  with disciplined_settle show ?thesis by (rule disciplined_trans)
qed

lemma g_object_unref_in_main_loop_disciplined:
  assumes "g_object_unref_in_main_loop p s = Inr (r, s')"
  shows "disciplined s s'"
proof -
  from assms have "g_object_unref_in_main_loop p (settle s) = Inr (r, s')"
    by (simp add: g_object_unref_in_main_loop_settle [symmetric])
  then have "disciplined (settle s) s'"
    by (auto simp add: g_object_unref_in_main_loop_def print_object_dbg_info_def run_simps
        disciplined_def split: if_splits option.splits)
  with disciplined_settle show ?thesis by (rule disciplined_trans)
qed

lemma dbg_g_object_new_disciplined:
  assumes "dbg_g_object_new t n names vals s = Inr (r, s')"
  shows "disciplined s s'"
proof -
  from assms have "dbg_g_object_new t n names vals (settle s) = Inr (r, s')"
    by (simp add: dbg_g_object_new_settle [symmetric])
  then have "disciplined (settle s) s'"
    by (auto simp add: dbg_g_object_new_def run_simps new_simps disciplined_def
        split: if_splits option.splits)
  with disciplined_settle show ?thesis by (rule disciplined_trans)
qed

lemma main_loop_dispatch_disciplined:
  assumes "main_loop_dispatch s = Inr (r, s')"
  shows "disciplined s s'"
proof (cases "idle_sources s")
  case Nil
  with assms show ?thesis by (simp add: main_loop_dispatch_def)
next
  case (Cons src rest)
  obtain f d where src: "src = (f, d)" by (cases src)
  let ?s0 = "s\<lparr>idle_sources := rest\<rparr>"
  from assms Cons src obtain again s1 where
    run: "invoke f d ?s0 = Inr (again, s1)" and
    s': "s' = (if again then s1\<lparr>idle_sources := idle_sources s1 @ [(f, d)]\<rparr> else s1)"
    by (auto simp add: main_loop_dispatch_def split: sum.splits)
  have "disciplined ?s0 s1"
  proof (cases f)
    case Fn_g_object_unref_in_main_loop
    with run have "g_object_unref_in_main_loop d ?s0 = Inr (again, s1)" by simp
    then show ?thesis by (rule g_object_unref_in_main_loop_disciplined)
  next
    case Fn_main_loop_boxed_free_helper
    with run have "main_loop_boxed_free_helper d ?s0 = Inr (again, s1)" by simp
    then show ?thesis by (rule main_loop_boxed_free_helper_disciplined)
  qed
  with s' show ?thesis by simp
qed

lemma writes_under_lock:
  assumes "exec c s = Inr (r, s')"
  shows "\<exists>evs. trace s' = trace s @ evs \<and> lock_scan 0 evs = Some 0"
proof -
  have "disciplined s s'"
  proof (cases c)
    case (Call_check_object_type p t)
    with assms show ?thesis
      by (auto simp add: bnd_def ret_def split: sum.splits dest: check_object_type_disciplined)
  next
    case (Call_boxed_free_helper t b)
    with assms show ?thesis
      by (auto simp add: ret_def boxed_free_helper_def g_malloc_def g_idle_add_def Let_def
          disciplined_def)
  next
    case (Call_main_loop_boxed_free_helper p)
    with assms show ?thesis
      by (auto simp add: bnd_def ret_def split: sum.splits
          dest: main_loop_boxed_free_helper_disciplined)
  next
    case (Call_dbg_g_object_disown p)
    with assms show ?thesis
      by (auto simp add: bnd_def ret_def split: sum.splits dest: dbg_g_object_disown_disciplined)
  next
    case (Call_g_object_unref_in_main_loop p)
    with assms show ?thesis
      by (auto simp add: bnd_def ret_def split: sum.splits
          dest: g_object_unref_in_main_loop_disciplined)
  next
    case (Call_dbg_g_object_unref p)
    with assms show ?thesis
      by (auto simp add: ret_def dbg_g_object_unref_def g_idle_add_def disciplined_def)
  next
    case (Call_dbg_g_object_new t n names vals)
    with assms show ?thesis
      by (auto simp add: bnd_def ret_def split: sum.splits dest: dbg_g_object_new_disciplined)
  next
    case (Call_safeFreeFunPtr p)
    with assms show ?thesis
      by (auto simp add: ret_def safeFreeFunPtr_def freeHaskellFunctionPtr_def disciplined_def)
  next
    case (Call_dbg_log_with_len msg len)
    with assms show ?thesis by (auto simp add: ret_def dbg_log_with_len_disciplined)
  next
    case Call_main_loop_dispatch
    with assms show ?thesis
      by (auto simp add: bnd_def ret_def split: sum.splits dest: main_loop_dispatch_disciplined)
  next
    case (Call_setenv name v)
    with assms show ?thesis by (auto simp add: ret_def disciplined_def)
  qed
  then show ?thesis by (simp add: disciplined_def)
qed

end
